theory Spec2Isabelle
  imports Complex_Main
begin

section \<open>Tensors\<close>

text \<open>
  The two files \<^verbatim>\<open>inside_agent.py\<close> (the plain variant) and
  \<^verbatim>\<open>supervised-wire/inside_agent.py\<close> (the batch-normalised variant) define
  feed-forward modules over tensors. A tensor is its shape and its elements in row-major
  order, as the library stores a contiguous tensor. Elements of floating type are modelled
  as reals: rounding is not part of the model. The library operations the modules call
  (\<^verbatim>\<open>one_hot\<close>, \<^verbatim>\<open>reshape\<close>, \<^verbatim>\<open>Linear\<close>, \<^verbatim>\<open>relu\<close>,
  \<^verbatim>\<open>BatchNorm1d\<close>, indexed assignment) are written out with the checks their
  eager CPU implementation makes; every exception is a value of \<open>error\<close>.
\<close>

datatype error = RuntimeError | ValueError | IndexError

record 'a tensor =
  shape :: "nat list"
  data :: "'a list"

definition numel :: "'a tensor \<Rightarrow> nat" where
  "numel t = prod_list (shape t)"

definition tensor_ok :: "'a tensor \<Rightarrow> bool" where
  "tensor_ok t \<longleftrightarrow> length (data t) = numel t"

text \<open>\<^verbatim>\<open>t.shape[0]\<close>: indexing the size tuple of a 0-dimensional tensor raises.\<close>

definition shape0 :: "'a tensor \<Rightarrow> error + nat" where
  "shape0 t = (case shape t of [] \<Rightarrow> Inl IndexError | b # _ \<Rightarrow> Inr b)"

text \<open>
  \<^verbatim>\<open>F.one_hot(t, num_classes=n)\<close> on an integer tensor: an empty tensor only gets the
  new last dimension; otherwise every class value must be non-negative and smaller than
  \<open>n\<close>, and each element becomes a row of zeros with a one scattered at its value.
\<close>

definition one_hot_row :: "nat \<Rightarrow> int \<Rightarrow> int list" where
  "one_hot_row n v = (replicate n 0)[nat v := 1]"

definition one_hot :: "int tensor \<Rightarrow> nat \<Rightarrow> error + int tensor" where
  "one_hot t n =
     (if numel t = 0 then
        (if n = 0 then Inl RuntimeError
         else Inr \<lparr>shape = shape t @ [n], data = []\<rparr>)
      else if list_ex (\<lambda>v. v < 0) (data t) then Inl RuntimeError
      else if list_ex (\<lambda>v. int n \<le> v) (data t) then Inl RuntimeError
      else Inr \<lparr>shape = shape t @ [n], data = concat (map (one_hot_row n) (data t))\<rparr>)"

text \<open>
  \<^verbatim>\<open>t.reshape(*sh)\<close>: a dimension \<open>-1\<close> is inferred from the number of elements.
  The elements keep their row-major order. With an inferred dimension the product of the
  other dimensions must be positive and divide the number of elements (a tensor of no
  elements makes the inferred dimension ambiguous, which is an error); without one the
  product must be the number of elements.
\<close>

definition infer_size :: "int list \<Rightarrow> nat \<Rightarrow> error + nat list" where
  "infer_size sh n =
     (if list_ex (\<lambda>d. d < - 1) sh then Inl RuntimeError
      else if 1 < length (filter (\<lambda>d. d = - 1) sh) then Inl RuntimeError
      else
        let newsize = prod_list (map nat (filter (\<lambda>d. d \<noteq> - 1) sh)) in
        if list_ex (\<lambda>d. d = - 1) sh then
          (if 0 < newsize \<and> n mod newsize = 0
           then Inr (map (\<lambda>d. if d = - 1 then n div newsize else nat d) sh)
           else Inl RuntimeError)
        else if n = newsize then Inr (map nat sh)
        else Inl RuntimeError)"

definition reshape :: "'a tensor \<Rightarrow> int list \<Rightarrow> error + 'a tensor" where
  "reshape t sh =
     (case infer_size sh (numel t) of
        Inl e \<Rightarrow> Inl e
      | Inr s \<Rightarrow> Inr \<lparr>shape = s, data = data t\<rparr>)"

text \<open>\<^verbatim>\<open>t.float()\<close> converts every element.\<close>

definition float :: "int tensor \<Rightarrow> real tensor" where
  "float t = \<lparr>shape = shape t, data = map real_of_int (data t)\<rparr>"

text \<open>\<^verbatim>\<open>F.relu\<close> is the elementwise maximum with zero.\<close>

definition relu :: "real tensor \<Rightarrow> real tensor" where
  "relu t = \<lparr>shape = shape t, data = map (max 0) (data t)\<rparr>"

section \<open>Linear layers\<close>

text \<open>
  \<^verbatim>\<open>nn.Linear(in_features, out_features)\<close> holds a weight of shape
  \<open>(out_features, in_features)\<close>, here one row per output, and a bias of
  \<open>out_features\<close> elements. The values are whatever initialisation or an optimiser left
  there; \<open>Linear_ok\<close> is what the constructor guarantees about their shapes.
\<close>

record Linear =
  in_features :: nat
  out_features :: nat
  weight :: "real list list"
  bias :: "real list"

definition Linear_ok :: "Linear \<Rightarrow> nat \<Rightarrow> nat \<Rightarrow> bool" where
  "Linear_ok l i out \<longleftrightarrow>
     in_features l = i \<and> out_features l = out \<and> length (weight l) = out \<and>
     length (bias l) = out \<and> list_all (\<lambda>w. length w = i) (weight l)"

definition dot :: "real list \<Rightarrow> real list \<Rightarrow> real" where
  "dot w x = sum_list (map2 (*) w x)"

definition affine :: "Linear \<Rightarrow> real list \<Rightarrow> real list" where
  "affine l x = map2 (\<lambda>w b. dot w x + b) (weight l) (bias l)"

text \<open>The rows of width \<open>k\<close> of a row-major element list.\<close>

definition rows :: "nat \<Rightarrow> nat \<Rightarrow> 'a list \<Rightarrow> 'a list list" where
  "rows k n d = map (\<lambda>i. take k (drop (i * k) d)) [0..<n]"

text \<open>
  Calling the layer applies the affine map along the last dimension, which must have
  \<open>in_features\<close> elements; a 0-dimensional input is rejected.
\<close>

definition linear_forward :: "Linear \<Rightarrow> real tensor \<Rightarrow> error + real tensor" where
  "linear_forward l x =
     (case rev (shape x) of
        [] \<Rightarrow> Inl RuntimeError
      | k # lead \<Rightarrow>
          if k \<noteq> in_features l then Inl RuntimeError
          else Inr \<lparr>shape = rev lead @ [out_features l],
                    data = concat (map (affine l) (rows k (prod_list lead) (data x)))\<rparr>)"

section \<open>The plain variant: \<^verbatim>\<open>InsideAgentForInitState\<close>\<close>

record config =
  n_digits :: nat
  n_states_per_digit :: nat
  vocab_size :: nat

record InsideAgentForInitState = config +
  fc1 :: Linear
  fc2 :: Linear
  fc3 :: Linear

text \<open>What \<^verbatim>\<open>__init__\<close> establishes, for a hidden width \<open>latent\<close>.\<close>

definition init_InitState :: "nat \<Rightarrow> 'a InsideAgentForInitState_scheme \<Rightarrow> bool" where
  "init_InitState latent m \<longleftrightarrow>
     Linear_ok (fc1 m) (n_states_per_digit m * n_digits m) latent \<and>
     Linear_ok (fc2 m) latent latent \<and>
     Linear_ok (fc3 m) latent (vocab_size m)"

text \<open>
  The first statement of \<^verbatim>\<open>forward\<close>, shared by both variants:
  \<^verbatim>\<open>F.one_hot(state, num_classes=self.n_states_per_digit).reshape(state.shape[0], -1).float()\<close>.
  Python evaluates the call to \<^verbatim>\<open>one_hot\<close> before the arguments of \<^verbatim>\<open>reshape\<close>.
\<close>

definition encode :: "'a config_scheme \<Rightarrow> int tensor \<Rightarrow> error + real tensor" where
  "encode m state =
     (case one_hot state (n_states_per_digit m) of
        Inl e \<Rightarrow> Inl e
      | Inr h \<Rightarrow>
          (case shape0 state of
             Inl e \<Rightarrow> Inl e
           | Inr b \<Rightarrow>
               (case reshape h [int b, - 1] of
                  Inl e \<Rightarrow> Inl e
                | Inr r \<Rightarrow> Inr (float r))))"

text \<open>
  A forward pass returns its result, or the exception it raised, together with the module
  as the call leaves it.
\<close>

definition forward_InitState ::
  "InsideAgentForInitState \<Rightarrow> int tensor \<Rightarrow> (error + real tensor) \<times> InsideAgentForInitState" where
  "forward_InitState m state =
     (case encode m state of
        Inl e \<Rightarrow> (Inl e, m)
      | Inr s \<Rightarrow>
          (case linear_forward (fc1 m) s of
             Inl e \<Rightarrow> (Inl e, m)
           | Inr a1 \<Rightarrow>
               (case linear_forward (fc2 m) (relu a1) of
                  Inl e \<Rightarrow> (Inl e, m)
                | Inr a2 \<Rightarrow> (linear_forward (fc3 m) (relu a2), m))))"

section \<open>The plain variant: \<^verbatim>\<open>InsideAgentForAction\<close>\<close>

text \<open>
  The decoder keeps one independent pair of layers per digit in two Python lists. The
  field names carry the suffix \<open>_act\<close>, the encoder having fields of the same names.
\<close>

record InsideAgentForAction = config +
  fc1_act :: Linear
  fc2_act :: Linear
  fc3_act :: "Linear list"
  fc4_act :: "Linear list"

text \<open>
  \<^verbatim>\<open>__init__\<close> builds \<open>n_digits\<close> heads; \<^verbatim>\<open>int(latent/2)\<close> is \<open>latent div 2\<close>.
\<close>

definition init_Action :: "nat \<Rightarrow> InsideAgentForAction \<Rightarrow> bool" where
  "init_Action latent m \<longleftrightarrow>
     Linear_ok (fc1_act m) (vocab_size m) latent \<and>
     Linear_ok (fc2_act m) latent latent \<and>
     length (fc3_act m) = n_digits m \<and>
     list_all (\<lambda>l. Linear_ok l latent (latent div 2)) (fc3_act m) \<and>
     length (fc4_act m) = n_digits m \<and>
     list_all (\<lambda>l. Linear_ok l (latent div 2) (n_states_per_digit m)) (fc4_act m)"

text \<open>
  \<^verbatim>\<open>torch.empty(size)\<close> returns uninitialised memory: the elements are whatever
  \<open>junk\<close> the allocator left at each position.
\<close>

definition empty :: "nat list \<Rightarrow> (nat \<Rightarrow> real) \<Rightarrow> real tensor" where
  "empty sh junk = \<lparr>shape = sh, data = map junk [0..<prod_list sh]\<rparr>"

text \<open>\<^verbatim>\<open>t.unsqueeze(0)\<close> adds a leading dimension of size one.\<close>

definition unsqueeze0 :: "'a tensor \<Rightarrow> 'a tensor" where
  "unsqueeze0 t = \<lparr>shape = 1 # shape t, data = data t\<rparr>"

text \<open>
  The assignment \<^verbatim>\<open>out[:, i, :] = v\<close> into a 3-dimensional tensor of shape
  \<open>(B, D, n)\<close>. The target slice has shape \<open>(B, n)\<close>. A value of that very shape is
  copied; any other value first loses its leading dimensions of size one and is then
  expanded to the slice by broadcasting, which fails when a dimension neither matches nor
  is one. \<open>expand2\<close> gives the expanded value as a function of the two slice indices.
\<close>

definition slicePrefix1sSize :: "nat list \<Rightarrow> nat list" where
  "slicePrefix1sSize s = dropWhile (\<lambda>d. d = 1) s"

definition expand2 :: "real tensor \<Rightarrow> nat \<Rightarrow> nat \<Rightarrow> error + (nat \<Rightarrow> nat \<Rightarrow> real)" where
  "expand2 v B n =
     (case shape v of
        [] \<Rightarrow> Inr (\<lambda>b k. data v ! 0)
      | [c] \<Rightarrow>
          if c = n \<or> c = 1 then Inr (\<lambda>b k. data v ! (if c = 1 then 0 else k))
          else Inl RuntimeError
      | [r, c] \<Rightarrow>
          if (r = B \<or> r = 1) \<and> (c = n \<or> c = 1)
          then Inr (\<lambda>b k. data v ! ((if r = 1 then 0 else b) * c + (if c = 1 then 0 else k)))
          else Inl RuntimeError
      | _ \<Rightarrow> Inl RuntimeError)"

definition setitem_digit :: "real tensor \<Rightarrow> nat \<Rightarrow> real tensor \<Rightarrow> error + real tensor" where
  "setitem_digit out i v =
     (case shape out of
        [B, D, n] \<Rightarrow>
          if \<not> i < D then Inl IndexError
          else
            (case expand2 (if shape v = [B, n] then v
                           else \<lparr>shape = slicePrefix1sSize (shape v), data = data v\<rparr>) B n of
               Inl e \<Rightarrow> Inl e
             | Inr f \<Rightarrow>
                 Inr \<lparr>shape = shape out,
                      data = map (\<lambda>idx. if (idx div n) mod D = i
                                         then f (idx div (n * D)) (idx mod n)
                                         else data out ! idx)
                               [0..<length (data out)]\<rparr>)
      | _ \<Rightarrow> Inl IndexError)"

text \<open>
  The loop of \<^verbatim>\<open>forward\<close> over the digits, on the trunk's output \<open>x\<close>:
  \<^verbatim>\<open>output_lst[:,i,:] = self.fc4[i](F.relu(self.fc3[i](x))).unsqueeze(0)\<close>.
  Indexing a list beyond its length raises.
\<close>

fun heads :: "InsideAgentForAction \<Rightarrow> real tensor \<Rightarrow> nat list \<Rightarrow> real tensor \<Rightarrow>
    error + real tensor" where
  "heads m x [] out = Inr out"
| "heads m x (i # rest) out =
     (if \<not> i < length (fc4_act m) then Inl IndexError
      else if \<not> i < length (fc3_act m) then Inl IndexError
      else
        (case linear_forward (fc3_act m ! i) x of
           Inl e \<Rightarrow> Inl e
         | Inr h \<Rightarrow>
             (case linear_forward (fc4_act m ! i) (relu h) of
                Inl e \<Rightarrow> Inl e
              | Inr s \<Rightarrow>
                  (case setitem_digit out i (unsqueeze0 s) of
                     Inl e \<Rightarrow> Inl e
                   | Inr out' \<Rightarrow> heads m x rest out'))))"

definition forward_Action ::
  "InsideAgentForAction \<Rightarrow> (nat \<Rightarrow> real) \<Rightarrow> real tensor \<Rightarrow>
     (error + real tensor) \<times> InsideAgentForAction" where
  "forward_Action m junk x =
     (case linear_forward (fc1_act m) x of
        Inl e \<Rightarrow> (Inl e, m)
      | Inr a1 \<Rightarrow>
          (case linear_forward (fc2_act m) (relu a1) of
             Inl e \<Rightarrow> (Inl e, m)
           | Inr a2 \<Rightarrow>
               (case shape0 (relu a2) of
                  Inl e \<Rightarrow> (Inl e, m)
                | Inr b \<Rightarrow>
                    (heads m (relu a2) [0..<n_digits m]
                       (empty [b, n_digits m, n_states_per_digit m] junk), m))))"

section \<open>Batch normalisation\<close>

text \<open>
  \<^verbatim>\<open>nn.BatchNorm1d(num_features)\<close> with its default arguments: a learnable scale and
  shift (\<open>bn_weight\<close>, \<open>bn_bias\<close>, named \<^verbatim>\<open>weight\<close> and \<^verbatim>\<open>bias\<close> in the library),
  and the tracked running statistics. \<open>training\<close> is the mode flag every module carries;
  a fresh module is in training mode.
\<close>

record BatchNorm1d =
  num_features :: nat
  eps :: real
  momentum :: real
  bn_weight :: "real list"
  bn_bias :: "real list"
  running_mean :: "real list"
  running_var :: "real list"
  num_batches_tracked :: nat
  training :: bool

definition BatchNorm1d_ok :: "BatchNorm1d \<Rightarrow> nat \<Rightarrow> bool" where
  "BatchNorm1d_ok bn c \<longleftrightarrow>
     num_features bn = c \<and> length (bn_weight bn) = c \<and> length (bn_bias bn) = c \<and>
     length (running_mean bn) = c \<and> length (running_var bn) = c"

text \<open>
  The values of channel \<open>c\<close> of an input of shape \<open>(N, C)\<close> (then \<open>L = 1\<close>) or
  \<open>(N, C, L)\<close>, and the statistics taken over them.
\<close>

definition channel :: "nat \<Rightarrow> nat \<Rightarrow> nat \<Rightarrow> real list \<Rightarrow> nat \<Rightarrow> real list" where
  "channel N C L d c = concat (map (\<lambda>n. take L (drop ((n * C + c) * L) d)) [0..<N])"

definition mean :: "real list \<Rightarrow> real" where
  "mean xs = sum_list xs / real (length xs)"

definition sq_dev :: "real list \<Rightarrow> real" where
  "sq_dev xs = sum_list (map (\<lambda>x. (x - mean xs)\<^sup>2) xs)"

definition var_biased :: "real list \<Rightarrow> real" where
  "var_biased xs = sq_dev xs / real (length xs)"

definition var_unbiased :: "real list \<Rightarrow> real" where
  "var_unbiased xs = sq_dev xs / (real (length xs) - 1)"

definition normalize ::
  "BatchNorm1d \<Rightarrow> real list \<Rightarrow> real list \<Rightarrow> nat \<Rightarrow> nat \<Rightarrow> real list \<Rightarrow> real list" where
  "normalize bn mu var C L d =
     map (\<lambda>idx. (d ! idx - mu ! ((idx div L) mod C)) / sqrt (var ! ((idx div L) mod C) + eps bn)
                  * bn_weight bn ! ((idx div L) mod C) + bn_bias bn ! ((idx div L) mod C))
       [0..<length d]"

definition update_stat :: "real \<Rightarrow> real list \<Rightarrow> real list \<Rightarrow> real list" where
  "update_stat mom running batch = map2 (\<lambda>r s. (1 - mom) * r + mom * s) running batch"

text \<open>
  Calling the layer. The input must have two or three dimensions. In training mode the
  batch counter is incremented first; then a batch with a single value per channel is
  refused, the input is normalised with the statistics of the batch, and the running
  statistics move towards them by \<open>momentum\<close> (the running variance towards the
  unbiased batch variance). In evaluation mode the input is normalised with the running
  statistics and the layer is left as it was. An input without elements is returned as
  it is.
\<close>

definition bn_forward :: "BatchNorm1d \<Rightarrow> real tensor \<Rightarrow> (error + real tensor) \<times> BatchNorm1d" where
  "bn_forward bn x =
     (if length (shape x) \<noteq> 2 \<and> length (shape x) \<noteq> 3 then (Inl ValueError, bn)
      else
        let N = shape x ! 0;
            C = shape x ! 1;
            L = (if length (shape x) = 3 then shape x ! 2 else 1);
            bn' = (if training bn
                   then bn\<lparr>num_batches_tracked := num_batches_tracked bn + 1\<rparr> else bn)
        in
        if training bn \<and> N * L = 1 then (Inl ValueError, bn')
        else if numel x = 0 then (Inr x, bn')
        else if C \<noteq> length (running_mean bn) \<or> C \<noteq> length (running_var bn) \<or>
                C \<noteq> length (bn_weight bn) \<or> C \<noteq> length (bn_bias bn)
        then (Inl RuntimeError, bn')
        else if training bn then
          (Inr \<lparr>shape = shape x,
                data = normalize bn (map (\<lambda>c. mean (channel N C L (data x) c)) [0..<C])
                         (map (\<lambda>c. var_biased (channel N C L (data x) c)) [0..<C])
                         C L (data x)\<rparr>,
           bn'\<lparr>running_mean := update_stat (momentum bn) (running_mean bn)
                  (map (\<lambda>c. mean (channel N C L (data x) c)) [0..<C]),
               running_var := update_stat (momentum bn) (running_var bn)
                  (map (\<lambda>c. var_unbiased (channel N C L (data x) c)) [0..<C])\<rparr>)
        else
          (Inr \<lparr>shape = shape x,
                data = normalize bn (running_mean bn) (running_var bn) C L (data x)\<rparr>, bn))"

section \<open>The batch-normalised variant\<close>

text \<open>
  Both classes of \<^verbatim>\<open>supervised-wire/inside_agent.py\<close> hold the same fields: the
  configuration, \<^verbatim>\<open>fc1\<close>, \<^verbatim>\<open>bn1\<close>, \<^verbatim>\<open>fc2\<close>, \<^verbatim>\<open>bn2\<close> and a single
  \<^verbatim>\<open>fc3\<close>. They differ in the shapes their constructors give the layers.
\<close>

record supervised_wire = InsideAgentForInitState +
  bn1 :: BatchNorm1d
  bn2 :: BatchNorm1d

type_synonym InsideAgentForInitState_bn = supervised_wire

type_synonym InsideAgentForAction_bn = supervised_wire

definition init_InitState_bn :: "nat \<Rightarrow> InsideAgentForInitState_bn \<Rightarrow> bool" where
  "init_InitState_bn latent m \<longleftrightarrow>
     Linear_ok (fc1 m) (n_states_per_digit m * n_digits m) latent \<and>
     BatchNorm1d_ok (bn1 m) latent \<and>
     Linear_ok (fc2 m) latent latent \<and>
     BatchNorm1d_ok (bn2 m) latent \<and>
     Linear_ok (fc3 m) latent (vocab_size m)"

definition init_Action_bn :: "nat \<Rightarrow> InsideAgentForAction_bn \<Rightarrow> bool" where
  "init_Action_bn latent m \<longleftrightarrow>
     Linear_ok (fc1 m) (vocab_size m) latent \<and>
     BatchNorm1d_ok (bn1 m) latent \<and>
     Linear_ok (fc2 m) latent latent \<and>
     BatchNorm1d_ok (bn2 m) latent \<and>
     Linear_ok (fc3 m) latent (n_states_per_digit m * n_digits m)"

text \<open>
  The two statements both \<^verbatim>\<open>forward\<close> methods share:
  \<^verbatim>\<open>x = F.relu(self.bn1(self.fc1(x)))\<close> and \<^verbatim>\<open>x = F.relu(self.bn2(self.fc2(x)))\<close>.
  A normalisation layer that ran leaves its new state in the module, also when the call
  goes on to raise.
\<close>

definition hidden_bn :: "supervised_wire \<Rightarrow> real tensor \<Rightarrow> (error + real tensor) \<times> supervised_wire" where
  "hidden_bn m x =
     (case linear_forward (fc1 m) x of
        Inl e \<Rightarrow> (Inl e, m)
      | Inr a1 \<Rightarrow>
          (case bn_forward (bn1 m) a1 of
             (Inl e, b1) \<Rightarrow> (Inl e, m\<lparr>bn1 := b1\<rparr>)
           | (Inr n1, b1) \<Rightarrow>
               (case linear_forward (fc2 m) (relu n1) of
                  Inl e \<Rightarrow> (Inl e, m\<lparr>bn1 := b1\<rparr>)
                | Inr a2 \<Rightarrow>
                    (case bn_forward (bn2 m) a2 of
                       (Inl e, b2) \<Rightarrow> (Inl e, m\<lparr>bn1 := b1, bn2 := b2\<rparr>)
                     | (Inr n2, b2) \<Rightarrow> (Inr (relu n2), m\<lparr>bn1 := b1, bn2 := b2\<rparr>)))))"

definition forward_InitState_bn ::
  "InsideAgentForInitState_bn \<Rightarrow> int tensor \<Rightarrow>
     (error + real tensor) \<times> InsideAgentForInitState_bn" where
  "forward_InitState_bn m state =
     (case encode m state of
        Inl e \<Rightarrow> (Inl e, m)
      | Inr s \<Rightarrow>
          (case hidden_bn m s of
             (Inl e, m') \<Rightarrow> (Inl e, m')
           | (Inr x, m') \<Rightarrow> (linear_forward (fc3 m') x, m')))"

definition forward_Action_bn ::
  "InsideAgentForAction_bn \<Rightarrow> real tensor \<Rightarrow> (error + real tensor) \<times> InsideAgentForAction_bn" where
  "forward_Action_bn m x0 =
     (case hidden_bn m x0 of
        (Inl e, m') \<Rightarrow> (Inl e, m')
      | (Inr x, m') \<Rightarrow>
          (case linear_forward (fc3 m') x of
             Inl e \<Rightarrow> (Inl e, m')
           | Inr z \<Rightarrow>
               (case shape0 x of
                  Inl e \<Rightarrow> (Inl e, m')
                | Inr b \<Rightarrow> (reshape z [int b, int (n_digits m'), - 1], m'))))"

section \<open>Valid inputs\<close>

text \<open>
  A valid input of the state encoder: a batch of \<open>B\<close> lock states, \<open>B\<close> at least one
  (the smallest batch the specification considers), each of \<open>n_digits\<close> digits in
  \<open>[0, n_states_per_digit)\<close>, the number of states per digit being positive as every
  configuration value is.
\<close>

definition valid_state :: "'a config_scheme \<Rightarrow> nat \<Rightarrow> int tensor \<Rightarrow> bool" where
  "valid_state m B state \<longleftrightarrow>
     shape state = [B, n_digits m] \<and> 0 < B \<and> tensor_ok state \<and>
     0 < n_states_per_digit m \<and>
     list_all (\<lambda>v. 0 \<le> v \<and> v < int (n_states_per_digit m)) (data state)"

section \<open>What one row of a batch is mapped to\<close>

text \<open>
  The functions below are not in the source: they state, for a single row of the input,
  what the plain modules compute for it. The properties relate \<^verbatim>\<open>forward\<close> to them.
  \<open>hidden_row\<close> is the shared trunk (two affine layers, each followed by the rectifier),
  \<open>InitState_row\<close> the state encoder on one encoded state, \<open>Action_head\<close> the scores of
  digit \<open>i\<close> for one symbol and \<open>Action_row\<close> the scores of all digits, in digit order.
\<close>

definition hidden_row :: "Linear \<Rightarrow> Linear \<Rightarrow> real list \<Rightarrow> real list" where
  "hidden_row l1 l2 r = map (max 0) (affine l2 (map (max 0) (affine l1 r)))"

definition InitState_row :: "'a InsideAgentForInitState_scheme \<Rightarrow> real list \<Rightarrow> real list" where
  "InitState_row m r = affine (fc3 m) (hidden_row (fc1 m) (fc2 m) r)"

definition head_of :: "InsideAgentForAction \<Rightarrow> nat \<Rightarrow> real list \<Rightarrow> real list" where
  "head_of m i h = affine (fc4_act m ! i) (map (max 0) (affine (fc3_act m ! i) h))"

definition Action_head :: "InsideAgentForAction \<Rightarrow> nat \<Rightarrow> real list \<Rightarrow> real list" where
  "Action_head m i r =
     affine (fc4_act m ! i)
       (map (max 0) (affine (fc3_act m ! i) (hidden_row (fc1_act m) (fc2_act m) r)))"

definition Action_row :: "InsideAgentForAction \<Rightarrow> real list \<Rightarrow> real list" where
  "Action_row m r = concat (map (\<lambda>i. Action_head m i r) [0..<n_digits m])"

text \<open>A tensor of \<open>B\<close> rows of width \<open>w\<close>, each the image under \<open>g\<close> of one row of \<open>R\<close>.\<close>

definition rowwise ::
  "real tensor \<Rightarrow> nat \<Rightarrow> nat \<Rightarrow> (real list \<Rightarrow> real list) \<Rightarrow> real list list \<Rightarrow> bool" where
  "rowwise t B w g R \<longleftrightarrow>
     shape t = [B, w] \<and> length R = B \<and> (\<forall>r\<in>set R. length (g r) = w) \<and>
     data t = concat (map g R)"

text \<open>
  The element \<^verbatim>\<open>t[b, c]\<close> of a 2-dimensional and \<^verbatim>\<open>t[b, i, k]\<close> of a 3-dimensional
  tensor, in row-major order.
\<close>

definition at2 :: "'a tensor \<Rightarrow> nat \<Rightarrow> nat \<Rightarrow> 'a" where
  "at2 t b c = data t ! (b * (shape t ! 1) + c)"

definition at3 :: "'a tensor \<Rightarrow> nat \<Rightarrow> nat \<Rightarrow> nat \<Rightarrow> 'a" where
  "at3 t b i k = data t ! ((b * (shape t ! 1) + i) * (shape t ! 2) + k)"

text \<open>
  What a call may change in a normalisation layer, and in a module of the
  batch-normalised variant: the running statistics and the batch counter, and nothing
  else.
\<close>

definition only_statistics_changed :: "BatchNorm1d \<Rightarrow> BatchNorm1d \<Rightarrow> bool" where
  "only_statistics_changed b b' \<longleftrightarrow>
     b' = b\<lparr>running_mean := running_mean b', running_var := running_var b',
            num_batches_tracked := num_batches_tracked b'\<rparr>"

definition parameters_kept :: "supervised_wire \<Rightarrow> supervised_wire \<Rightarrow> bool" where
  "parameters_kept m m' \<longleftrightarrow>
     m' = m\<lparr>bn1 := bn1 m', bn2 := bn2 m'\<rparr> \<and>
     only_statistics_changed (bn1 m) (bn1 m') \<and>
     only_statistics_changed (bn2 m) (bn2 m')"

text \<open>
  Two tensors of one shape that hold the same element at every position satisfying \<open>P\<close>;
  it relates the output buffers of two runs of the decoder's loop.
\<close>

definition same_on :: "(nat \<Rightarrow> bool) \<Rightarrow> real tensor \<Rightarrow> real tensor \<Rightarrow> bool" where
  "same_on P t t' \<longleftrightarrow>
     shape t' = shape t \<and> length (data t') = length (data t) \<and>
     (\<forall>idx<length (data t). P idx \<longrightarrow> data t' ! idx = data t ! idx)"

text \<open>The encoding of one lock state: the one-hot vectors of its digits, in digit order.\<close>

definition encode_row :: "nat \<Rightarrow> int list \<Rightarrow> real list" where
  "encode_row n r = concat (map (\<lambda>v. map real_of_int (one_hot_row n v)) r)"

section \<open>Example modules\<close>

text \<open>
  Small modules and inputs on which the properties are instantiated: two digits of three
  states, as in the specification's example, and a hidden width of one.
\<close>

definition enc_ex :: InsideAgentForInitState where
  "enc_ex = \<lparr>n_digits = 2, n_states_per_digit = 3, vocab_size = 1,
     fc1 = \<lparr>in_features = 6, out_features = 1, weight = [[1, 2, 3, 4, 5, 6]], bias = [0]\<rparr>,
     fc2 = \<lparr>in_features = 1, out_features = 1, weight = [[1]], bias = [0]\<rparr>,
     fc3 = \<lparr>in_features = 1, out_features = 1, weight = [[- 1]], bias = [1]\<rparr>\<rparr>"

definition bn_ex :: BatchNorm1d where
  "bn_ex = \<lparr>num_features = 1, eps = 1 / 100000, momentum = 1 / 10, bn_weight = [1],
     bn_bias = [0], running_mean = [0], running_var = [1], num_batches_tracked = 0,
     training = True\<rparr>"

definition encbn_ex :: InsideAgentForInitState_bn where
  "encbn_ex = \<lparr>n_digits = 2, n_states_per_digit = 3, vocab_size = 1,
     fc1 = \<lparr>in_features = 6, out_features = 1, weight = [[1, 2, 3, 4, 5, 6]], bias = [0]\<rparr>,
     fc2 = \<lparr>in_features = 1, out_features = 1, weight = [[1]], bias = [0]\<rparr>,
     fc3 = \<lparr>in_features = 1, out_features = 1, weight = [[- 1]], bias = [1]\<rparr>,
     bn1 = bn_ex, bn2 = bn_ex\<rparr>"

definition state_ex :: "int tensor" where
  "state_ex = \<lparr>shape = [1, 2], data = [1, 2]\<rparr>"

definition states_ex :: "int tensor" where
  "states_ex = \<lparr>shape = [2, 2], data = [1, 2, 0, 0]\<rparr>"

definition act_ex :: InsideAgentForAction where
  "act_ex = \<lparr>n_digits = 2, n_states_per_digit = 2, vocab_size = 2,
     fc1_act = \<lparr>in_features = 2, out_features = 2, weight = [[1, 0], [0, 1]], bias = [0, 0]\<rparr>,
     fc2_act = \<lparr>in_features = 2, out_features = 2, weight = [[1, 1], [1, - 1]], bias = [0, 0]\<rparr>,
     fc3_act = [\<lparr>in_features = 2, out_features = 1, weight = [[1, 0]], bias = [1]\<rparr>,
                \<lparr>in_features = 2, out_features = 1, weight = [[0, 1]], bias = [0]\<rparr>],
     fc4_act = [\<lparr>in_features = 1, out_features = 2, weight = [[1], [- 1]], bias = [0, 0]\<rparr>,
                \<lparr>in_features = 1, out_features = 2, weight = [[2], [3]], bias = [1, - 1]\<rparr>]\<rparr>"

definition symbols_ex :: "real tensor" where
  "symbols_ex = \<lparr>shape = [2, 2], data = [1, 0, 0, 1]\<rparr>"

definition symbol_ex :: "real tensor" where
  "symbol_ex = \<lparr>shape = [1, 2], data = [1, 0]\<rparr>"

definition actbn_ex :: InsideAgentForAction_bn where
  "actbn_ex = \<lparr>n_digits = 2, n_states_per_digit = 3, vocab_size = 2,
     fc1 = \<lparr>in_features = 2, out_features = 1, weight = [[1, 2]], bias = [0]\<rparr>,
     fc2 = \<lparr>in_features = 1, out_features = 1, weight = [[1]], bias = [0]\<rparr>,
     fc3 = \<lparr>in_features = 1, out_features = 6, weight = [[1], [2], [3], [4], [5], [6]],
            bias = [0, 0, 0, 0, 0, 0]\<rparr>,
     bn1 = bn_ex, bn2 = bn_ex\<rparr>"

definition zero_head3 :: Linear where
  "zero_head3 = \<lparr>in_features = 2, out_features = 1, weight = [[0, 0]], bias = [0]\<rparr>"

definition zero_head4 :: Linear where
  "zero_head4 = \<lparr>in_features = 1, out_features = 2, weight = [[0], [0]], bias = [0, 0]\<rparr>"

definition bn_eval_ex :: BatchNorm1d where
  "bn_eval_ex = \<lparr>num_features = 1, eps = 0, momentum = 1 / 10, bn_weight = [1],
     bn_bias = [0], running_mean = [0], running_var = [1], num_batches_tracked = 0,
     training = False\<rparr>"

definition acteval_ex :: InsideAgentForAction_bn where
  "acteval_ex = actbn_ex\<lparr>bn1 := bn_eval_ex, bn2 := bn_eval_ex\<rparr>"

definition bad_state_ex :: "int tensor" where
  "bad_state_ex = \<lparr>shape = [1, 2], data = [1, 3]\<rparr>"

definition enc1_ex :: InsideAgentForInitState where
  "enc1_ex = \<lparr>n_digits = 1, n_states_per_digit = 2, vocab_size = 1,
     fc1 = \<lparr>in_features = 2, out_features = 1, weight = [[1, - 1]], bias = [0]\<rparr>,
     fc2 = \<lparr>in_features = 1, out_features = 1, weight = [[1]], bias = [0]\<rparr>,
     fc3 = \<lparr>in_features = 1, out_features = 1, weight = [[1]], bias = [0]\<rparr>\<rparr>"

definition act1_ex :: InsideAgentForAction where
  "act1_ex = \<lparr>n_digits = 1, n_states_per_digit = 1, vocab_size = 1,
     fc1_act = \<lparr>in_features = 1, out_features = 2, weight = [[1], [2]], bias = [0, 0]\<rparr>,
     fc2_act = \<lparr>in_features = 2, out_features = 2, weight = [[1, 0], [0, 1]], bias = [0, 0]\<rparr>,
     fc3_act = [\<lparr>in_features = 2, out_features = 1, weight = [[1, 1]], bias = [0]\<rparr>],
     fc4_act = [\<lparr>in_features = 1, out_features = 1, weight = [[1]], bias = [1]\<rparr>]\<rparr>"

definition encbn1_ex :: InsideAgentForInitState_bn where
  "encbn1_ex = \<lparr>n_digits = 1, n_states_per_digit = 2, vocab_size = 1,
     fc1 = \<lparr>in_features = 2, out_features = 1, weight = [[1, - 1]], bias = [0]\<rparr>,
     fc2 = \<lparr>in_features = 1, out_features = 1, weight = [[1]], bias = [0]\<rparr>,
     fc3 = \<lparr>in_features = 1, out_features = 1, weight = [[1]], bias = [0]\<rparr>,
     bn1 = bn_eval_ex, bn2 = bn_eval_ex\<rparr>"

definition actbn1_ex :: InsideAgentForAction_bn where
  "actbn1_ex = \<lparr>n_digits = 1, n_states_per_digit = 2, vocab_size = 1,
     fc1 = \<lparr>in_features = 1, out_features = 1, weight = [[1]], bias = [0]\<rparr>,
     fc2 = \<lparr>in_features = 1, out_features = 1, weight = [[1]], bias = [0]\<rparr>,
     fc3 = \<lparr>in_features = 1, out_features = 2, weight = [[1], [2]], bias = [0, 0]\<rparr>,
     bn1 = bn_eval_ex, bn2 = bn_eval_ex\<rparr>"

definition state1_ex :: "int tensor" where
  "state1_ex = \<lparr>shape = [1, 1], data = [1]\<rparr>"

definition symbol1_ex :: "real tensor" where
  "symbol1_ex = \<lparr>shape = [1, 1], data = [1]\<rparr>"

definition symbols3_ex :: "real tensor" where
  "symbols3_ex = \<lparr>shape = [3, 2], data = [1, 0, 0, 0, 1, 1]\<rparr>"

section \<open>Auxiliary facts\<close>

subsection \<open>Blocks of equal width\<close>

lemma concat_uniform_length:
  "\<forall>xs\<in>set xss. length xs = w \<Longrightarrow> length (concat xss) = length xss * w"
  by (induction xss) auto

lemma concat_uniform_nth:
  "\<forall>xs\<in>set xss. length xs = w \<Longrightarrow> i < length xss \<Longrightarrow> k < w \<Longrightarrow>
   concat xss ! (i * w + k) = xss ! i ! k"
proof (induction xss arbitrary: i)
  case Nil
  then show ?case by simp
next
  case (Cons xs xss)
  show ?case
  proof (cases i)
    case 0
    with Cons.prems show ?thesis by (simp add: nth_append)
  next
    case (Suc j)
    with Cons.prems have "concat xss ! (j * w + k) = xss ! j ! k"
      by (intro Cons.IH) auto
    with Suc Cons.prems show ?thesis by (simp add: nth_append)
  qed
qed

lemma length_one_hot_row: "length (one_hot_row n v) = n"
  by (simp add: one_hot_row_def)

lemma one_hot_row_nth:
  "0 \<le> v \<Longrightarrow> k < n \<Longrightarrow> one_hot_row n v ! k = (if int k = v then 1 else 0)"
  by (auto simp: one_hot_row_def nth_list_update)

lemma infer_size_batch:
  "0 < B \<Longrightarrow> infer_size [int B, - 1] (B * w) = Inr [B, w]"
  by (simp add: infer_size_def)

lemma one_hot_valid:
  assumes "valid_state m B state"
  shows "one_hot state (n_states_per_digit m) =
           Inr \<lparr>shape = [B, n_digits m, n_states_per_digit m],
                data = concat (map (one_hot_row (n_states_per_digit m)) (data state))\<rparr>"
proof -
  from assms have "\<not> list_ex (\<lambda>v. v < 0) (data state)"
    and "\<not> list_ex (\<lambda>v. int (n_states_per_digit m) \<le> v) (data state)"
    by (auto simp: valid_state_def list_all_iff list_ex_iff)
  moreover from assms have "numel state = 0 \<Longrightarrow> data state = []"
    by (simp add: valid_state_def tensor_ok_def)
  ultimately show ?thesis using assms
    by (auto simp: one_hot_def valid_state_def)
qed

lemma encode_valid:
  assumes "valid_state m B state"
  shows "encode m state =
           Inr \<lparr>shape = [B, n_digits m * n_states_per_digit m],
                data = map real_of_int
                  (concat (map (one_hot_row (n_states_per_digit m)) (data state)))\<rparr>"
proof -
  let ?n = "n_states_per_digit m"
  from assms have B: "0 < B" and sh: "shape state = [B, n_digits m]"
    by (simp_all add: valid_state_def)
  have "infer_size [int B, - 1] (B * (n_digits m * ?n)) = Inr [B, n_digits m * ?n]"
    using B by (rule infer_size_batch)
  then show ?thesis
    using one_hot_valid[OF assms] sh
    by (simp add: encode_def shape0_def reshape_def numel_def float_def mult.assoc)
qed

subsection \<open>Linear layers, row by row\<close>

lemma length_affine: "Linear_ok l i out \<Longrightarrow> length (affine l r) = out"
  by (simp add: affine_def Linear_ok_def)

lemma length_rows: "length (rows k n d) = n"
  by (simp add: rows_def)

lemma take_drop_concat_uniform:
  "\<forall>xs\<in>set xss. length xs = w \<Longrightarrow> i < length xss \<Longrightarrow>
   take w (drop (i * w) (concat xss)) = xss ! i"
proof (induction xss arbitrary: i)
  case Nil
  then show ?case by simp
next
  case (Cons xs xss)
  show ?case
  proof (cases i)
    case 0
    with Cons.prems show ?thesis by simp
  next
    case (Suc j)
    with Cons.prems have "take w (drop (j * w) (concat xss)) = xss ! j"
      by (intro Cons.IH) auto
    with Suc Cons.prems show ?thesis by simp
  qed
qed

lemma rows_concat:
  assumes "\<forall>xs\<in>set xss. length xs = w"
  shows "rows w (length xss) (concat xss) = xss"
proof (rule nth_equalityI)
  show "length (rows w (length xss) (concat xss)) = length xss"
    by (simp add: length_rows)
next
  fix i assume "i < length (rows w (length xss) (concat xss))"
  then have "i < length xss" by (simp add: length_rows)
  then show "rows w (length xss) (concat xss) ! i = xss ! i"
    using take_drop_concat_uniform[OF assms] by (simp add: rows_def)
qed

lemma linear_forward_2d:
  assumes "in_features l = w" and "shape x = [B, w]"
  shows "linear_forward l x =
           Inr \<lparr>shape = [B, out_features l],
                data = concat (map (affine l) (rows w B (data x)))\<rparr>"
  using assms by (simp add: linear_forward_def)

lemma rowwise_linear:
  assumes "rowwise t B w g R" and "Linear_ok l w out"
  shows "\<exists>t'. linear_forward l t = Inr t' \<and> rowwise t' B out (\<lambda>r. affine l (g r)) R"
proof -
  from assms(1) have sh: "shape t = [B, w]" and len: "length R = B"
    and uni: "\<forall>xs\<in>set (map g R). length xs = w" and d: "data t = concat (map g R)"
    by (simp_all add: rowwise_def)
  have "rows w B (data t) = map g R"
    using rows_concat[OF uni] len d by simp
  moreover from assms(2) have "in_features l = w" "out_features l = out"
    by (simp_all add: Linear_ok_def)
  ultimately have "linear_forward l t =
      Inr \<lparr>shape = [B, out], data = concat (map (\<lambda>r. affine l (g r)) R)\<rparr>"
    using linear_forward_2d[of l w t B] sh by (simp add: comp_def)
  then show ?thesis
    using len length_affine[OF assms(2)] by (simp add: rowwise_def)
qed

lemma rowwise_relu:
  assumes "rowwise t B w g R"
  shows "rowwise (relu t) B w (\<lambda>r. map (max 0) (g r)) R"
  using assms by (simp add: rowwise_def relu_def map_concat comp_def)

lemma rowwise_tensor_ok: "rowwise t B w g R \<Longrightarrow> tensor_ok t"
  using concat_uniform_length[of "map g R" w]
  by (simp add: rowwise_def tensor_ok_def numel_def)

lemma rowwise_rows:
  assumes "shape t = [B, w]" and "tensor_ok t"
  shows "rowwise t B w (\<lambda>r. r) (rows w B (data t))"
proof -
  have len: "length (data t) = B * w"
    using assms by (simp add: tensor_ok_def numel_def)
  have uni: "\<forall>r\<in>set (rows w B (data t)). length r = w"
  proof
    fix r assume "r \<in> set (rows w B (data t))"
    then obtain i where i: "i < B" and r: "r = take w (drop (i * w) (data t))"
      by (auto simp: rows_def)
    have "i * w + w \<le> B * w"
    proof -
      have "i * w + w = Suc i * w" by simp
      also have "\<dots> \<le> B * w" using i by (intro mult_le_mono1) simp
      finally show ?thesis .
    qed
    then show "length r = w" using len r by simp
  qed
  have "concat (rows w B (data t)) = data t"
  proof (rule nth_equalityI)
    show l2: "length (concat (rows w B (data t))) = length (data t)"
      using concat_uniform_length[OF uni] len by (simp add: length_rows)
    fix j assume "j < length (concat (rows w B (data t)))"
    then have j: "j < B * w" using l2 len by simp
    then have w: "0 < w" by (cases w) auto
    have jb: "j div w < B" using j w by (simp add: less_mult_imp_div_less)
    have "concat (rows w B (data t)) ! (j div w * w + j mod w) = rows w B (data t) ! (j div w) ! (j mod w)"
      using concat_uniform_nth[OF uni, of "j div w" "j mod w"] jb w by (simp add: length_rows)
    also have "\<dots> = data t ! (j div w * w + j mod w)"
      using jb w len j by (simp add: rows_def)
    finally show "concat (rows w B (data t)) ! j = data t ! j" by simp
  qed
  with uni assms show ?thesis by (simp add: rowwise_def length_rows)
qed

subsection \<open>The plain encoder\<close>

lemma encode_rowwise:
  assumes "valid_state m B state"
  shows "\<exists>s. encode m state = Inr s \<and> shape s = [B, n_digits m * n_states_per_digit m] \<and>
              tensor_ok s \<and>
              rowwise s B (n_digits m * n_states_per_digit m) (\<lambda>r. r)
                (rows (n_digits m * n_states_per_digit m) B (data s))"
proof -
  let ?n = "n_states_per_digit m"
  let ?blocks = "map (one_hot_row ?n) (data state)"
  let ?s = "\<lparr>shape = [B, n_digits m * ?n], data = map real_of_int (concat ?blocks)\<rparr>"
  from assms have len: "length (data state) = B * n_digits m"
    by (simp add: valid_state_def tensor_ok_def numel_def)
  have "\<forall>xs\<in>set ?blocks. length xs = ?n"
    by (simp add: length_one_hot_row)
  from concat_uniform_length[OF this] len have "tensor_ok ?s"
    by (simp add: tensor_ok_def numel_def)
  with encode_valid[OF assms] rowwise_rows[of ?s B "n_digits m * ?n"] show ?thesis
    by (intro exI[of _ ?s]) simp
qed

lemma forward_InitState_rows:
  assumes init: "init_InitState latent m" and valid: "valid_state m B state"
  shows "\<exists>s a1 a2 y.
           encode m state = Inr s \<and>
           linear_forward (fc1 m) s = Inr a1 \<and>
           linear_forward (fc2 m) (relu a1) = Inr a2 \<and>
           linear_forward (fc3 m) (relu a2) = Inr y \<and>
           forward_InitState m state = (Inr y, m) \<and>
           rowwise y B (vocab_size m) (InitState_row m)
             (rows (n_digits m * n_states_per_digit m) B (data s))"
proof -
  let ?w = "n_digits m * n_states_per_digit m"
  from init have l1: "Linear_ok (fc1 m) ?w latent"
    and l2: "Linear_ok (fc2 m) latent latent"
    and l3: "Linear_ok (fc3 m) latent (vocab_size m)"
    by (simp_all add: init_InitState_def mult.commute)
  from encode_rowwise[OF valid] obtain s where
    s: "encode m state = Inr s" and rs: "rowwise s B ?w (\<lambda>r. r) (rows ?w B (data s))"
    by blast
  let ?R = "rows ?w B (data s)"
  from rowwise_linear[OF rs l1] obtain a1 where
    a1: "linear_forward (fc1 m) s = Inr a1"
    and r1: "rowwise a1 B latent (\<lambda>r. affine (fc1 m) r) ?R" by blast
  from rowwise_linear[OF rowwise_relu[OF r1] l2] obtain a2 where
    a2: "linear_forward (fc2 m) (relu a1) = Inr a2"
    and r2: "rowwise a2 B latent (\<lambda>r. affine (fc2 m) (map (max 0) (affine (fc1 m) r))) ?R"
    by blast
  have fn: "(\<lambda>r. affine (fc3 m) (map (max 0) (affine (fc2 m) (map (max 0) (affine (fc1 m) r))))) =
      InitState_row m"
    by (simp add: fun_eq_iff InitState_row_def hidden_row_def)
  from rowwise_linear[OF rowwise_relu[OF r2] l3] obtain y where
    y: "linear_forward (fc3 m) (relu a2) = Inr y"
    and r3: "rowwise y B (vocab_size m) (InitState_row m) ?R"
    unfolding fn by blast
  have "forward_InitState m state = (Inr y, m)"
    using s a1 a2 y by (simp add: forward_InitState_def)
  with s a1 a2 y r3 show ?thesis by blast
qed

subsection \<open>Shapes through the normalised trunk\<close>

lemma linear_forward_shape:
  assumes "Linear_ok l w out" and "shape x = [B, w]"
  shows "\<exists>y. linear_forward l x = Inr y \<and> shape y = [B, out] \<and> tensor_ok y"
proof -
  from assms(1) have io: "in_features l = w" "out_features l = out"
    by (simp_all add: Linear_ok_def)
  have "\<forall>xs\<in>set (map (affine l) (rows w B (data x))). length xs = out"
    using length_affine[OF assms(1)] by simp
  from concat_uniform_length[OF this]
  have "length (concat (map (affine l) (rows w B (data x)))) = B * out"
    by (simp add: length_rows)
  then show ?thesis
    using linear_forward_2d[OF io(1) assms(2)] io(2)
    by (simp add: tensor_ok_def numel_def)
qed

lemma relu_shape: "shape (relu t) = shape t"
  by (simp add: relu_def)

lemma relu_tensor_ok: "tensor_ok t \<Longrightarrow> tensor_ok (relu t)"
  by (simp add: relu_def tensor_ok_def numel_def)

lemma length_normalize: "length (normalize bn mu var C L d) = length d"
  by (simp add: normalize_def)

lemma bn_forward_shape:
  assumes ok: "BatchNorm1d_ok bn C" and sh: "shape x = [B, C]" and tok: "tensor_ok x"
    and nd: "\<not> (training bn \<and> B = 1)"
  shows "\<exists>y. fst (bn_forward bn x) = Inr y \<and> shape y = [B, C] \<and> tensor_ok y"
proof -
  from ok have len: "C = length (running_mean bn)" "C = length (running_var bn)"
      "C = length (bn_weight bn)" "C = length (bn_bias bn)"
    by (simp_all add: BatchNorm1d_ok_def)
  show ?thesis
    using sh tok nd len
    by (auto simp: bn_forward_def Let_def tensor_ok_def numel_def length_normalize)
qed

lemma hidden_bn_shape:
  assumes l1: "Linear_ok (fc1 m) w latent" and b1: "BatchNorm1d_ok (bn1 m) latent"
    and l2: "Linear_ok (fc2 m) latent latent" and b2: "BatchNorm1d_ok (bn2 m) latent"
    and sh: "shape x = [B, w]"
    and nd: "\<not> (B = 1 \<and> (training (bn1 m) \<or> training (bn2 m)))"
  shows "\<exists>a1 n1 a2 n2.
           linear_forward (fc1 m) x = Inr a1 \<and>
           fst (bn_forward (bn1 m) a1) = Inr n1 \<and>
           linear_forward (fc2 m) (relu n1) = Inr a2 \<and>
           fst (bn_forward (bn2 m) a2) = Inr n2 \<and>
           fst (hidden_bn m x) = Inr (relu n2) \<and>
           shape (relu n2) = [B, latent] \<and> tensor_ok (relu n2)"
proof -
  from linear_forward_shape[OF l1 sh] obtain a1 where
    a1: "linear_forward (fc1 m) x = Inr a1" "shape a1 = [B, latent]" "tensor_ok a1"
    by blast
  from nd have "\<not> (training (bn1 m) \<and> B = 1)" by blast
  from bn_forward_shape[OF b1 a1(2,3) this] obtain n1 where
    n1: "fst (bn_forward (bn1 m) a1) = Inr n1" "shape n1 = [B, latent]" "tensor_ok n1"
    by blast
  from linear_forward_shape[OF l2, of "relu n1" B] n1 obtain a2 where
    a2: "linear_forward (fc2 m) (relu n1) = Inr a2" "shape a2 = [B, latent]" "tensor_ok a2"
    by (auto simp: relu_shape)
  from nd have "\<not> (training (bn2 m) \<and> B = 1)" by blast
  from bn_forward_shape[OF b2 a2(2,3) this] obtain n2 where
    n2: "fst (bn_forward (bn2 m) a2) = Inr n2" "shape n2 = [B, latent]" "tensor_ok n2"
    by blast
  have "fst (hidden_bn m x) = Inr (relu n2)"
    using a1(1) n1(1) a2(1) n2(1)
    by (auto simp: hidden_bn_def split: prod.splits sum.splits)
  with a1(1) n1(1) a2(1) n2 show ?thesis
    by (auto simp: relu_shape relu_tensor_ok)
qed

lemma hidden_bn_fc3: "fc3 (snd (hidden_bn m x)) = fc3 m"
  by (simp add: hidden_bn_def split: prod.splits sum.splits)

lemma hidden_bn_config:
  "n_digits (snd (hidden_bn m x)) = n_digits m"
  "n_states_per_digit (snd (hidden_bn m x)) = n_states_per_digit m"
  "vocab_size (snd (hidden_bn m x)) = vocab_size m"
  by (simp_all add: hidden_bn_def split: prod.splits sum.splits)

lemma forward_InitState_bn_layers:
  assumes init: "init_InitState_bn latent m" and valid: "valid_state m B state"
    and nd: "\<not> (B = 1 \<and> (training (bn1 m) \<or> training (bn2 m)))"
  shows "\<exists>s a1 n1 a2 n2 y.
           encode m state = Inr s \<and>
           linear_forward (fc1 m) s = Inr a1 \<and>
           fst (bn_forward (bn1 m) a1) = Inr n1 \<and>
           linear_forward (fc2 m) (relu n1) = Inr a2 \<and>
           fst (bn_forward (bn2 m) a2) = Inr n2 \<and>
           linear_forward (fc3 m) (relu n2) = Inr y \<and>
           fst (forward_InitState_bn m state) = Inr y \<and>
           shape y = [B, vocab_size m] \<and> tensor_ok y"
proof -
  let ?w = "n_digits m * n_states_per_digit m"
  from init have l1: "Linear_ok (fc1 m) ?w latent"
    and b1: "BatchNorm1d_ok (bn1 m) latent"
    and l2: "Linear_ok (fc2 m) latent latent"
    and b2: "BatchNorm1d_ok (bn2 m) latent"
    and l3: "Linear_ok (fc3 m) latent (vocab_size m)"
    by (simp_all add: init_InitState_bn_def mult.commute)
  from encode_rowwise[OF valid] obtain s where
    s: "encode m state = Inr s" "shape s = [B, ?w]" by blast
  from hidden_bn_shape[OF l1 b1 l2 b2 s(2) nd] obtain a1 n1 a2 n2 where
    h: "linear_forward (fc1 m) s = Inr a1" "fst (bn_forward (bn1 m) a1) = Inr n1"
       "linear_forward (fc2 m) (relu n1) = Inr a2" "fst (bn_forward (bn2 m) a2) = Inr n2"
       "fst (hidden_bn m s) = Inr (relu n2)" "shape (relu n2) = [B, latent]"
    by blast
  from linear_forward_shape[OF l3 h(6)] obtain y where
    y: "linear_forward (fc3 m) (relu n2) = Inr y" "shape y = [B, vocab_size m]" "tensor_ok y"
    by blast
  have "fst (forward_InitState_bn m state) = Inr y"
    using s(1) h(5) y(1) hidden_bn_fc3[of m s]
    by (cases "hidden_bn m s") (simp add: forward_InitState_bn_def)
  with s(1) h(1-4) y show ?thesis by blast
qed

subsection \<open>The loop of the plain decoder\<close>

lemma index3_recompose:
  assumes "idx < B * D * (n::nat)"
  shows "idx div (n * D) < B" and "(idx div n) mod D < D" and "idx mod n < n"
    and "(idx div (n * D) * D + (idx div n) mod D) * n + idx mod n = idx"
proof -
  from assms have n: "0 < n" by (cases n) simp_all
  from assms have D: "0 < D" by (cases D) simp_all
  have "idx < B * (n * D)" using assms by (simp only: mult.assoc mult.commute[of D n])
  then show "idx div (n * D) < B"
    using n D by (intro less_mult_imp_div_less) simp
  show "(idx div n) mod D < D" using D by simp
  show "idx mod n < n" using n by simp
  have "idx div (n * D) = (idx div n) div D" by (simp only: div_mult2_eq)
  then show "(idx div (n * D) * D + (idx div n) mod D) * n + idx mod n = idx"
    by simp
qed

lemma expand2_unsqueeze0:
  assumes "shape s = [B, n]"
  shows "\<exists>f. expand2 (if shape (unsqueeze0 s) = [B, n] then unsqueeze0 s
                       else \<lparr>shape = slicePrefix1sSize (shape (unsqueeze0 s)),
                             data = data (unsqueeze0 s)\<rparr>) B n = Inr f \<and>
             (\<forall>b<B. \<forall>k<n. f b k = data s ! (b * n + k))"
proof (cases "B = 1")
  case False
  then show ?thesis using assms
    by (auto simp: unsqueeze0_def slicePrefix1sSize_def expand2_def)
next
  case B: True
  show ?thesis
  proof (cases "n = 1")
    case False
    with B show ?thesis using assms
      by (auto simp: unsqueeze0_def slicePrefix1sSize_def expand2_def)
  next
    case True
    with B show ?thesis using assms
      by (auto simp: unsqueeze0_def slicePrefix1sSize_def expand2_def)
  qed
qed

lemma setitem_digit_head:
  assumes out: "shape out = [B, D, n]" and len: "length (data out) = B * D * n"
    and i: "i < D" and s: "shape s = [B, n]"
  shows "\<exists>out'. setitem_digit out i (unsqueeze0 s) = Inr out' \<and>
           shape out' = [B, D, n] \<and> length (data out') = B * D * n \<and>
           (\<forall>idx<B * D * n. data out' ! idx =
              (if (idx div n) mod D = i
               then data s ! (idx div (n * D) * n + idx mod n)
               else data out ! idx))"
proof -
  from expand2_unsqueeze0[OF s] obtain f where
    f: "expand2 (if shape (unsqueeze0 s) = [B, n] then unsqueeze0 s
                 else \<lparr>shape = slicePrefix1sSize (shape (unsqueeze0 s)),
                       data = data (unsqueeze0 s)\<rparr>) B n = Inr f"
    and fv: "\<forall>b<B. \<forall>k<n. f b k = data s ! (b * n + k)"
    by blast
  let ?out' = "\<lparr>shape = shape out,
                data = map (\<lambda>idx. if (idx div n) mod D = i
                                   then f (idx div (n * D)) (idx mod n)
                                   else data out ! idx) [0..<length (data out)]\<rparr>"
  have set: "setitem_digit out i (unsqueeze0 s) = Inr ?out'"
    using out i f by (simp add: setitem_digit_def)
  have "data ?out' ! idx =
          (if (idx div n) mod D = i then data s ! (idx div (n * D) * n + idx mod n)
           else data out ! idx)" if "idx < B * D * n" for idx
    using that len fv index3_recompose(1,3)[OF that] by simp
  with set out len show ?thesis by (intro exI[of _ ?out']) simp
qed

lemma rowwise_nth:
  assumes "rowwise t B w g R" and "b < B" and "k < w"
  shows "data t ! (b * w + k) = g (R ! b) ! k"
proof -
  from assms(1) have uni: "\<forall>xs\<in>set (map g R). length xs = w"
    and len: "length R = B" and d: "data t = concat (map g R)"
    by (simp_all add: rowwise_def)
  from concat_uniform_nth[OF uni, of b k] assms(2,3) len d show ?thesis by simp
qed

lemma head_step:
  assumes init: "init_Action latent m" and i: "i < n_digits m"
    and x: "rowwise x B latent g R"
  shows "\<exists>h s. linear_forward (fc3_act m ! i) x = Inr h \<and>
               linear_forward (fc4_act m ! i) (relu h) = Inr s \<and>
               rowwise s B (n_states_per_digit m) (\<lambda>r. head_of m i (g r)) R"
proof -
  from init i have l3: "Linear_ok (fc3_act m ! i) latent (latent div 2)"
    and l4: "Linear_ok (fc4_act m ! i) (latent div 2) (n_states_per_digit m)"
    by (simp_all add: init_Action_def list_all_length)
  from rowwise_linear[OF x l3] obtain h where
    h: "linear_forward (fc3_act m ! i) x = Inr h"
    and rh: "rowwise h B (latent div 2) (\<lambda>r. affine (fc3_act m ! i) (g r)) R" by blast
  have fn: "(\<lambda>r. affine (fc4_act m ! i) (map (max 0) (affine (fc3_act m ! i) (g r)))) =
      (\<lambda>r. head_of m i (g r))"
    by (simp add: fun_eq_iff head_of_def)
  from rowwise_linear[OF rowwise_relu[OF rh] l4] obtain s where
    "linear_forward (fc4_act m ! i) (relu h) = Inr s"
    "rowwise s B (n_states_per_digit m) (\<lambda>r. head_of m i (g r)) R"
    unfolding fn by blast
  with h show ?thesis by blast
qed

lemma heads_values:
  assumes init: "init_Action latent m" and x: "rowwise x B latent g R"
    and idxs: "\<forall>i\<in>set is. i < n_digits m"
    and out: "shape out = [B, n_digits m, n_states_per_digit m]"
    and len: "length (data out) = B * n_digits m * n_states_per_digit m"
  shows "\<exists>y. heads m x is out = Inr y \<and>
           shape y = [B, n_digits m, n_states_per_digit m] \<and>
           length (data y) = B * n_digits m * n_states_per_digit m \<and>
           (\<forall>idx<B * n_digits m * n_states_per_digit m. data y ! idx =
              (if (idx div n_states_per_digit m) mod n_digits m \<in> set is
               then head_of m ((idx div n_states_per_digit m) mod n_digits m)
                      (g (R ! (idx div (n_states_per_digit m * n_digits m))))
                    ! (idx mod n_states_per_digit m)
               else data out ! idx))"
  using idxs out len
proof (induction "is" arbitrary: out)
  case Nil
  then show ?case by simp
next
  case (Cons i rest)
  let ?D = "n_digits m"
  let ?n = "n_states_per_digit m"
  from Cons.prems(1) have i: "i < ?D" and rest: "\<forall>j\<in>set rest. j < ?D" by simp_all
  from init i have li: "i < length (fc3_act m)" "i < length (fc4_act m)"
    by (simp_all add: init_Action_def)
  from head_step[OF init i x] obtain h s where
    h: "linear_forward (fc3_act m ! i) x = Inr h"
    and s: "linear_forward (fc4_act m ! i) (relu h) = Inr s"
    and rs: "rowwise s B ?n (\<lambda>r. head_of m i (g r)) R" by blast
  from rs have shs: "shape s = [B, ?n]" by (simp add: rowwise_def)
  from setitem_digit_head[OF Cons.prems(2,3) i shs] obtain out1 where
    o1: "setitem_digit out i (unsqueeze0 s) = Inr out1"
    and sh1: "shape out1 = [B, ?D, ?n]"
    and len1: "length (data out1) = B * ?D * ?n"
    and v1: "\<forall>idx<B * ?D * ?n. data out1 ! idx =
              (if (idx div ?n) mod ?D = i
               then data s ! (idx div (?n * ?D) * ?n + idx mod ?n)
               else data out ! idx)" by blast
  from Cons.IH[OF rest sh1 len1] obtain y where
    y: "heads m x rest out1 = Inr y"
    and shy: "shape y = [B, ?D, ?n]"
    and leny: "length (data y) = B * ?D * ?n"
    and vy: "\<forall>idx<B * ?D * ?n. data y ! idx =
              (if (idx div ?n) mod ?D \<in> set rest
               then head_of m ((idx div ?n) mod ?D) (g (R ! (idx div (?n * ?D)))) ! (idx mod ?n)
               else data out1 ! idx)" by blast
  have run: "heads m x (i # rest) out = Inr y"
    using li h s o1 y by simp
  have "data y ! idx =
          (if (idx div ?n) mod ?D \<in> set (i # rest)
           then head_of m ((idx div ?n) mod ?D) (g (R ! (idx div (?n * ?D)))) ! (idx mod ?n)
           else data out ! idx)" if lt: "idx < B * ?D * ?n" for idx
  proof (cases "(idx div ?n) mod ?D \<in> set rest")
    case True
    with vy lt show ?thesis by simp
  next
    case False
    with vy lt have a: "data y ! idx = data out1 ! idx" by simp
    show ?thesis
    proof (cases "(idx div ?n) mod ?D = i")
      case True
      from index3_recompose(1,3)[OF lt]
      have "data s ! (idx div (?n * ?D) * ?n + idx mod ?n) =
              head_of m i (g (R ! (idx div (?n * ?D)))) ! (idx mod ?n)"
        by (rule rowwise_nth[OF rs])
      with a v1 lt True show ?thesis by simp
    next
      case ne: False
      with a v1 lt False show ?thesis by simp
    qed
  qed
  with run shy leny show ?case by blast
qed

lemma Action_head_head_of:
  "Action_head m i r = head_of m i (hidden_row (fc1_act m) (fc2_act m) r)"
  by (simp add: Action_head_def head_of_def)

lemma length_Action_head:
  assumes "init_Action latent m" and "i < n_digits m"
  shows "length (Action_head m i r) = n_states_per_digit m"
proof -
  from assms have "Linear_ok (fc4_act m ! i) (latent div 2) (n_states_per_digit m)"
    by (simp add: init_Action_def list_all_length)
  from length_affine[OF this] show ?thesis by (simp add: Action_head_def)
qed

lemma Action_row_uniform:
  assumes "init_Action latent m"
  shows "\<forall>xs\<in>set (map (\<lambda>i. Action_head m i r) [0..<n_digits m]).
           length xs = n_states_per_digit m"
  using length_Action_head[OF assms] by auto

lemma length_Action_row:
  assumes "init_Action latent m"
  shows "length (Action_row m r) = n_digits m * n_states_per_digit m"
  using concat_uniform_length[OF Action_row_uniform[OF assms, of r]]
  by (simp add: Action_row_def)

lemma Action_row_nth:
  assumes "init_Action latent m" and "i < n_digits m" and "k < n_states_per_digit m"
  shows "Action_row m r ! (i * n_states_per_digit m + k) = Action_head m i r ! k"
  using concat_uniform_nth[OF Action_row_uniform[OF assms(1), of r], of i k] assms(2,3)
  by (simp add: Action_row_def)

lemma Action_rows_nth:
  assumes init: "init_Action latent m" and len: "length R = B"
    and b: "b < B" and i: "i < n_digits m" and k: "k < n_states_per_digit m"
  shows "concat (map (Action_row m) R) ! ((b * n_digits m + i) * n_states_per_digit m + k) =
           Action_head m i (R ! b) ! k"
proof -
  let ?D = "n_digits m" and ?n = "n_states_per_digit m"
  have uni: "\<forall>xs\<in>set (map (Action_row m) R). length xs = ?D * ?n"
    using length_Action_row[OF init] by simp
  have lt: "i * ?n + k < ?D * ?n"
  proof -
    have "i * ?n + k < Suc i * ?n" using k by simp
    also have "\<dots> \<le> ?D * ?n" using i by (intro mult_le_mono1) simp
    finally show ?thesis .
  qed
  have eq: "(b * ?D + i) * ?n + k = b * (?D * ?n) + (i * ?n + k)"
    by (simp add: algebra_simps)
  have "concat (map (Action_row m) R) ! (b * (?D * ?n) + (i * ?n + k)) =
               map (Action_row m) R ! b ! (i * ?n + k)"
    using b len lt by (intro concat_uniform_nth[OF uni]) simp_all
  then have "concat (map (Action_row m) R) ! ((b * ?D + i) * ?n + k) =
               map (Action_row m) R ! b ! (i * ?n + k)"
    unfolding eq .
  also have "\<dots> = Action_head m i (R ! b) ! k"
    using Action_row_nth[OF init i k] b len by simp
  finally show ?thesis .
qed

lemma forward_Action_rows:
  assumes init: "init_Action latent m" and sh: "shape x = [B, vocab_size m]"
    and tok: "tensor_ok x"
  shows "forward_Action m junk x =
           (Inr \<lparr>shape = [B, n_digits m, n_states_per_digit m],
                 data = concat (map (Action_row m) (rows (vocab_size m) B (data x)))\<rparr>, m)"
proof -
  let ?D = "n_digits m" and ?n = "n_states_per_digit m"
  let ?R = "rows (vocab_size m) B (data x)"
  let ?g = "hidden_row (fc1_act m) (fc2_act m)"
  from init have l1: "Linear_ok (fc1_act m) (vocab_size m) latent"
    and l2: "Linear_ok (fc2_act m) latent latent"
    by (simp_all add: init_Action_def)
  have lenR: "length ?R = B" by (simp add: length_rows)
  from rowwise_linear[OF rowwise_rows[OF sh tok] l1] obtain a1 where
    a1: "linear_forward (fc1_act m) x = Inr a1"
    and r1: "rowwise a1 B latent (\<lambda>r. affine (fc1_act m) r) ?R" by blast
  have fn: "(\<lambda>r. map (max 0) (affine (fc2_act m) (map (max 0) (affine (fc1_act m) r)))) = ?g"
    by (simp add: fun_eq_iff hidden_row_def)
  from rowwise_linear[OF rowwise_relu[OF r1] l2] obtain a2 where
    a2: "linear_forward (fc2_act m) (relu a1) = Inr a2"
    and r2: "rowwise a2 B latent (\<lambda>r. affine (fc2_act m) (map (max 0) (affine (fc1_act m) r))) ?R"
    by blast
  from rowwise_relu[OF r2] have rx: "rowwise (relu a2) B latent ?g ?R"
    unfolding fn .
  then have s0: "shape0 (relu a2) = Inr B"
    by (simp add: rowwise_def shape0_def)
  let ?out = "empty [B, ?D, ?n] junk"
  have osh: "shape ?out = [B, ?D, ?n]" and olen: "length (data ?out) = B * ?D * ?n"
    by (simp_all add: empty_def)
  have idxs: "\<forall>i\<in>set [0..<?D]. i < ?D" by simp
  from heads_values[OF init rx idxs osh olen] obtain y where
    y: "heads m (relu a2) [0..<?D] ?out = Inr y"
    and shy: "shape y = [B, ?D, ?n]"
    and leny: "length (data y) = B * ?D * ?n"
    and vy: "\<forall>idx<B * ?D * ?n. data y ! idx =
              (if (idx div ?n) mod ?D \<in> set [0..<?D]
               then head_of m ((idx div ?n) mod ?D) (?g (?R ! (idx div (?n * ?D)))) ! (idx mod ?n)
               else data ?out ! idx)" by blast
  have uni: "\<forall>xs\<in>set (map (Action_row m) ?R). length xs = ?D * ?n"
    using length_Action_row[OF init] by simp
  have lenc: "length (concat (map (Action_row m) ?R)) = B * ?D * ?n"
    using concat_uniform_length[OF uni] lenR by simp
  have "data y = concat (map (Action_row m) ?R)"
  proof (rule nth_equalityI)
    show "length (data y) = length (concat (map (Action_row m) ?R))"
      using leny lenc by simp
  next
    fix idx assume "idx < length (data y)"
    then have lt: "idx < B * ?D * ?n" using leny by simp
    note rc = index3_recompose[OF lt]
    from rc(2) have "(idx div ?n) mod ?D \<in> set [0..<?D]" by simp
    with vy lt have "data y ! idx =
        Action_head m ((idx div ?n) mod ?D) (?R ! (idx div (?n * ?D))) ! (idx mod ?n)"
      by (simp add: Action_head_head_of)
    also have "\<dots> = concat (map (Action_row m) ?R) !
        ((idx div (?n * ?D) * ?D + (idx div ?n) mod ?D) * ?n + idx mod ?n)"
      using Action_rows_nth[OF init lenR rc(1) rc(2) rc(3)] by simp
    finally show "data y ! idx = concat (map (Action_row m) ?R) ! idx"
      using rc(4) by simp
  qed
  with shy have "y = \<lparr>shape = [B, ?D, ?n], data = concat (map (Action_row m) ?R)\<rparr>"
    by simp
  with a1 a2 s0 y show ?thesis
    by (simp add: forward_Action_def)
qed

subsection \<open>The batch-normalised decoder\<close>

lemma infer_size_digits:
  assumes "0 < B" and "0 < D"
  shows "infer_size [int B, int D, - 1] (B * (n * D)) = Inr [B, D, n]"
proof -
  have "B * (n * D) = n * (B * D)" by (simp add: mult.left_commute)
  then have "B * (n * D) mod (B * D) = 0" "B * (n * D) div (B * D) = n"
    using assms by simp_all
  then show ?thesis using assms by (simp add: infer_size_def)
qed

lemma forward_Action_bn_reshape:
  assumes init: "init_Action_bn latent m" and sh: "shape x = [B, vocab_size m]"
    and B: "0 < B" and D: "0 < n_digits m"
    and nd: "\<not> (B = 1 \<and> (training (bn1 m) \<or> training (bn2 m)))"
  shows "\<exists>h z. fst (hidden_bn m x) = Inr h \<and> shape h = [B, latent] \<and>
           linear_forward (fc3 m) h = Inr z \<and>
           shape z = [B, n_states_per_digit m * n_digits m] \<and> tensor_ok z \<and>
           fst (forward_Action_bn m x) =
             Inr \<lparr>shape = [B, n_digits m, n_states_per_digit m], data = data z\<rparr>"
proof -
  from init have l1: "Linear_ok (fc1 m) (vocab_size m) latent"
    and b1: "BatchNorm1d_ok (bn1 m) latent"
    and l2: "Linear_ok (fc2 m) latent latent"
    and b2: "BatchNorm1d_ok (bn2 m) latent"
    and l3: "Linear_ok (fc3 m) latent (n_states_per_digit m * n_digits m)"
    by (simp_all add: init_Action_bn_def)
  from hidden_bn_shape[OF l1 b1 l2 b2 sh nd] obtain h where
    h: "fst (hidden_bn m x) = Inr h" "shape h = [B, latent]"
    by blast
  from linear_forward_shape[OF l3 h(2)] obtain z where
    z: "linear_forward (fc3 m) h = Inr z"
       "shape z = [B, n_states_per_digit m * n_digits m]" "tensor_ok z"
    by blast
  have nz: "numel z = B * (n_states_per_digit m * n_digits m)"
    using z(2) by (simp add: numel_def)
  have "fst (forward_Action_bn m x) =
          Inr \<lparr>shape = [B, n_digits m, n_states_per_digit m], data = data z\<rparr>"
    using h z(1) nz infer_size_digits[OF B D, of "n_states_per_digit m"]
      hidden_bn_fc3[of m x] hidden_bn_config(1)[of m x]
    by (cases "hidden_bn m x") (simp add: forward_Action_bn_def shape0_def reshape_def)
  with h z show ?thesis by blast
qed

subsection \<open>Entries of the plain decoder's result\<close>

lemma forward_Action_at3:
  assumes init: "init_Action latent m" and sh: "shape x = [B, vocab_size m]"
    and tok: "tensor_ok x"
  shows "\<exists>y. forward_Action m junk x = (Inr y, m) \<and>
           shape y = [B, n_digits m, n_states_per_digit m] \<and> tensor_ok y \<and>
           (\<forall>b<B. \<forall>i<n_digits m. \<forall>k<n_states_per_digit m.
              at3 y b i k = Action_head m i (rows (vocab_size m) B (data x) ! b) ! k)"
proof -
  let ?R = "rows (vocab_size m) B (data x)"
  let ?y = "\<lparr>shape = [B, n_digits m, n_states_per_digit m],
             data = concat (map (Action_row m) ?R)\<rparr>"
  have lenR: "length ?R = B" by (simp add: length_rows)
  have uni: "\<forall>xs\<in>set (map (Action_row m) ?R). length xs = n_digits m * n_states_per_digit m"
    using length_Action_row[OF init] by simp
  have "tensor_ok ?y"
    using concat_uniform_length[OF uni] lenR by (simp add: tensor_ok_def numel_def)
  moreover have "at3 ?y b i k = Action_head m i (?R ! b) ! k"
    if "b < B" "i < n_digits m" "k < n_states_per_digit m" for b i k
    using Action_rows_nth[OF init lenR that] by (simp add: at3_def)
  ultimately show ?thesis
    using forward_Action_rows[OF init sh tok, of junk] by (intro exI[of _ ?y]) simp
qed

lemma init_Action_update:
  assumes init: "init_Action latent m"
    and l3: "Linear_ok l3 latent (latent div 2)"
    and l4: "Linear_ok l4 (latent div 2) (n_states_per_digit m)"
  shows "init_Action latent (m\<lparr>fc3_act := (fc3_act m)[j := l3], fc4_act := (fc4_act m)[j := l4]\<rparr>)"
proof -
  have "list_all P (xs[j := v])" if "list_all P xs" "P v" for P and xs :: "Linear list" and v
    unfolding list_all_length
  proof (intro allI impI)
    fix n assume "n < length (xs[j := v])"
    then have n: "n < length xs" by simp
    show "P (xs[j := v] ! n)"
    proof (cases "n = j")
      case True
      with n that(2) show ?thesis by simp
    next
      case False
      with n that(1) show ?thesis by (simp add: list_all_length)
    qed
  qed
  with assms show ?thesis by (simp add: init_Action_def)
qed

lemma Action_head_update:
  assumes "i \<noteq> j"
  shows "Action_head (m\<lparr>fc3_act := (fc3_act m)[j := l3], fc4_act := (fc4_act m)[j := l4]\<rparr>) i r =
         Action_head m i r"
  using assms by (simp add: Action_head_def)

subsection \<open>What a call leaves in the module\<close>

lemma bn_forward_only_statistics:
  "only_statistics_changed bn (snd (bn_forward bn x))"
  by (simp add: bn_forward_def only_statistics_changed_def Let_def)

lemma bn_forward_eval: "\<not> training bn \<Longrightarrow> snd (bn_forward bn x) = bn"
  by (simp add: bn_forward_def Let_def)

lemma only_statistics_refl: "only_statistics_changed b b"
  by (simp add: only_statistics_changed_def)

lemma hidden_bn_parameters: "parameters_kept m (snd (hidden_bn m x))"
proof -
  have 1: "only_statistics_changed (bn1 m) b1" if "bn_forward (bn1 m) a = (r, b1)" for a r b1
    using bn_forward_only_statistics[of "bn1 m" a] that by simp
  have 2: "only_statistics_changed (bn2 m) b2" if "bn_forward (bn2 m) a = (r, b2)" for a r b2
    using bn_forward_only_statistics[of "bn2 m" a] that by simp
  show ?thesis
    using 1 2
    by (auto simp: hidden_bn_def parameters_kept_def only_statistics_refl
        split: sum.splits prod.splits)
qed

lemma hidden_bn_eval:
  assumes "\<not> training (bn1 m)" and "\<not> training (bn2 m)"
  shows "snd (hidden_bn m x) = m"
proof -
  have 1: "b1 = bn1 m" if "bn_forward (bn1 m) a = (r, b1)" for a r b1
    using bn_forward_eval[OF assms(1), of a] that by simp
  have 2: "b2 = bn2 m" if "bn_forward (bn2 m) a = (r, b2)" for a r b2
    using bn_forward_eval[OF assms(2), of a] that by simp
  show ?thesis
    using 1 2
    by (auto simp: hidden_bn_def split: sum.splits prod.splits)
qed

lemma parameters_kept_refl: "parameters_kept m m"
  by (simp add: parameters_kept_def only_statistics_refl)

lemma forward_InitState_bn_snd:
  "snd (forward_InitState_bn m state) =
     (case encode m state of Inl e \<Rightarrow> m | Inr s \<Rightarrow> snd (hidden_bn m s))"
  by (simp add: forward_InitState_bn_def split: sum.splits prod.splits)

lemma forward_Action_bn_snd: "snd (forward_Action_bn m x) = snd (hidden_bn m x)"
  by (simp add: forward_Action_bn_def split: sum.splits prod.splits)

lemma forward_InitState_bn_parameters:
  "parameters_kept m (snd (forward_InitState_bn m state))"
  by (simp add: forward_InitState_bn_snd parameters_kept_refl hidden_bn_parameters
      split: sum.splits)

lemma forward_InitState_bn_eval:
  "\<not> training (bn1 m) \<Longrightarrow> \<not> training (bn2 m) \<Longrightarrow> snd (forward_InitState_bn m state) = m"
  by (simp add: forward_InitState_bn_snd hidden_bn_eval split: sum.splits)

lemma forward_InitState_snd: "snd (forward_InitState m state) = m"
  by (simp add: forward_InitState_def split: sum.splits)

lemma forward_Action_snd: "snd (forward_Action m junk x) = m"
  by (simp add: forward_Action_def split: sum.splits)

lemma hidden_bn_counts:
  assumes "training (bn1 m)" and "linear_forward (fc1 m) x = Inr a" and "length (shape a) = 2"
  shows "num_batches_tracked (bn1 (snd (hidden_bn m x))) = num_batches_tracked (bn1 m) + 1"
proof -
  have "num_batches_tracked (snd (bn_forward (bn1 m) a)) = num_batches_tracked (bn1 m) + 1"
    using assms(1,3) by (simp add: bn_forward_def Let_def)
  then show ?thesis
    using assms(2) by (auto simp: hidden_bn_def split: sum.splits prod.splits)
qed

lemma hidden_bn_running_mean:
  assumes tr: "training (bn1 m)" and a: "linear_forward (fc1 m) x = Inr a"
    and sh: "shape a = [N, C]" and N: "N \<noteq> 1" and ne: "numel a \<noteq> 0"
    and ok: "BatchNorm1d_ok (bn1 m) C"
  shows "running_mean (bn1 (snd (hidden_bn m x))) =
           update_stat (momentum (bn1 m)) (running_mean (bn1 m))
             (map (\<lambda>c. mean (channel N C 1 (data a) c)) [0..<C])"
proof -
  have "running_mean (snd (bn_forward (bn1 m) a)) =
          update_stat (momentum (bn1 m)) (running_mean (bn1 m))
            (map (\<lambda>c. mean (channel N C 1 (data a) c)) [0..<C])"
    using tr sh N ne ok by (simp add: bn_forward_def Let_def BatchNorm1d_ok_def)
  then show ?thesis
    using a by (auto simp: hidden_bn_def split: sum.splits prod.splits)
qed

lemma actbn_ex_fc1:
  "linear_forward (fc1 actbn_ex) symbols_ex = Inr \<lparr>shape = [2, 1], data = [1, 2]\<rparr>"
  by (simp add: linear_forward_def rows_def affine_def dot_def actbn_ex_def symbols_ex_def
      upt_conv_Cons)

subsection \<open>The uninitialised output buffer\<close>

lemma setitem_digit_same_on:
  assumes "same_on P out out'"
  shows "(case setitem_digit out i v of
            Inl e \<Rightarrow> setitem_digit out' i v = Inl e
          | Inr y \<Rightarrow> (\<exists>y'. setitem_digit out' i v = Inr y' \<and>
               same_on (\<lambda>idx. P idx \<or>
                  (idx div (shape out ! 2)) mod (shape out ! 1) = i) y y'))"
proof -
  from assms have sh: "shape out' = shape out" and len: "length (data out') = length (data out)"
    and eq: "\<forall>idx<length (data out). P idx \<longrightarrow> data out' ! idx = data out ! idx"
    by (simp_all add: same_on_def)
  show ?thesis
    using sh len eq
    by (auto simp: setitem_digit_def same_on_def split: list.splits sum.splits)
qed

lemma heads_same_on:
  assumes "same_on P out out'"
  shows "(case heads m x is out of
            Inl e \<Rightarrow> heads m x is out' = Inl e
          | Inr y \<Rightarrow> (\<exists>y'. heads m x is out' = Inr y' \<and>
               same_on (\<lambda>idx. P idx \<or>
                  (idx div (shape out ! 2)) mod (shape out ! 1) \<in> set is) y y'))"
  using assms
proof (induction "is" arbitrary: out out' P)
  case Nil
  then show ?case by simp
next
  case (Cons i rest)
  show ?case
  proof (cases "i < length (fc4_act m) \<and> i < length (fc3_act m)")
    case False
    then show ?thesis by auto
  next
    case li: True
    show ?thesis
    proof (cases "linear_forward (fc3_act m ! i) x")
      case (Inl e)
      with li show ?thesis by simp
    next
      case h: (Inr h)
      show ?thesis
      proof (cases "linear_forward (fc4_act m ! i) (relu h)")
        case (Inl e)
        with li h show ?thesis by simp
      next
        case s: (Inr s)
        note st = setitem_digit_same_on[OF Cons.prems, of i "unsqueeze0 s"]
        show ?thesis
        proof (cases "setitem_digit out i (unsqueeze0 s)")
          case (Inl e)
          with st li h s show ?thesis by simp
        next
          case o1: (Inr out1)
          with st obtain out1' where
            o1': "setitem_digit out' i (unsqueeze0 s) = Inr out1'"
            and so: "same_on (\<lambda>idx. P idx \<or> (idx div (shape out ! 2)) mod (shape out ! 1) = i)
                       out1 out1'"
            by auto
          have sh1: "shape out1 = shape out"
            using o1 by (auto simp: setitem_digit_def split: list.splits if_splits sum.splits)
          note ih = Cons.IH[OF so, unfolded sh1]
          show ?thesis
          proof (cases "heads m x rest out1")
            case (Inl e)
            with ih li h s o1 o1' show ?thesis by simp
          next
            case y: (Inr y)
            with ih obtain y' where
              y': "heads m x rest out1' = Inr y'"
              and sy: "same_on (\<lambda>idx. (P idx \<or> (idx div (shape out ! 2)) mod (shape out ! 1) = i) \<or>
                         (idx div (shape out ! 2)) mod (shape out ! 1) \<in> set rest) y y'"
              by auto
            from sy have "same_on (\<lambda>idx. P idx \<or>
                (idx div (shape out ! 2)) mod (shape out ! 1) \<in> set (i # rest)) y y'"
              by (auto simp: same_on_def)
            with li h s o1 o1' y y' show ?thesis by simp
          qed
        qed
      qed
    qed
  qed
qed

lemma setitem_digit_shape:
  "setitem_digit out i v = Inr y \<Longrightarrow> shape y = shape out \<and> length (data y) = length (data out)"
  by (auto simp: setitem_digit_def split: list.splits if_splits sum.splits)

lemma heads_shape:
  "heads m x is out = Inr y \<Longrightarrow> shape y = shape out \<and> length (data y) = length (data out)"
proof (induction "is" arbitrary: out)
  case Nil
  then show ?case by simp
next
  case (Cons i rest)
  from Cons.prems obtain h s out1 where
    "setitem_digit out i (unsqueeze0 s) = Inr out1" "heads m x rest out1 = Inr y"
    by (auto split: if_splits sum.splits)
  with Cons.IH[of out1] setitem_digit_shape[of out i "unsqueeze0 s" out1]
  show ?case by simp
qed

lemma heads_junk:
  "heads m x [0..<D] (empty [b, D, n] junk) = heads m x [0..<D] (empty [b, D, n] junk')"
proof -
  let ?out = "empty [b, D, n] junk" and ?out' = "empty [b, D, n] junk'"
  have so: "same_on (\<lambda>_. False) ?out ?out'"
    by (simp add: same_on_def empty_def)
  note r = heads_same_on[OF so, of m x "[0..<D]"]
  show ?thesis
  proof (cases "heads m x [0..<D] ?out")
    case (Inl e)
    with r show ?thesis by simp
  next
    case y: (Inr y)
    with r obtain y' where y': "heads m x [0..<D] ?out' = Inr y'"
      and sy: "same_on (\<lambda>idx. False \<or> (idx div (shape ?out ! 2)) mod (shape ?out ! 1) \<in> set [0..<D])
                 y y'"
      by auto
    from heads_shape[OF y] have len: "length (data y) = b * D * n"
      by (simp add: empty_def)
    have "data y' = data y"
    proof (rule nth_equalityI)
      show "length (data y') = length (data y)" using sy by (simp add: same_on_def)
    next
      fix idx assume "idx < length (data y')"
      then have lt: "idx < length (data y)" using sy by (simp add: same_on_def)
      with len have "0 < D" by (cases D) simp_all
      then have "(idx div n) mod D \<in> set [0..<D]" by simp
      with sy lt show "data y' ! idx = data y ! idx"
        by (simp add: same_on_def empty_def)
    qed
    moreover from sy have "shape y' = shape y" by (simp add: same_on_def)
    ultimately have "y' = y" by simp
    with y y' show ?thesis by simp
  qed
qed

lemma forward_Action_junk: "forward_Action m junk x = forward_Action m junk' x"
  by (simp add: forward_Action_def heads_junk[of m _ "n_digits m" _ "n_states_per_digit m" junk junk']
      split: sum.splits)

subsection \<open>Batches of a single element\<close>

lemma bn_forward_single:
  assumes "training bn" and "shape x = [1, C]"
  shows "fst (bn_forward bn x) = Inl ValueError"
  using assms by (simp add: bn_forward_def Let_def)

lemma hidden_bn_single:
  assumes l1: "Linear_ok (fc1 m) w latent" and b1: "BatchNorm1d_ok (bn1 m) latent"
    and l2: "Linear_ok (fc2 m) latent latent"
    and sh: "shape x = [1, w]"
    and tr: "training (bn1 m) \<or> training (bn2 m)"
  shows "fst (hidden_bn m x) = Inl ValueError"
proof -
  from linear_forward_shape[OF l1 sh] obtain a1 where
    a1: "linear_forward (fc1 m) x = Inr a1" "shape a1 = [1, latent]" "tensor_ok a1"
    by blast
  show ?thesis
  proof (cases "training (bn1 m)")
    case True
    from bn_forward_single[OF True a1(2)] a1(1) show ?thesis
      by (auto simp: hidden_bn_def split: sum.splits prod.splits)
  next
    case False
    with tr have t2: "training (bn2 m)" by simp
    from False have "\<not> (training (bn1 m) \<and> (1::nat) = 1)" by simp
    from bn_forward_shape[OF b1 a1(2,3) this] obtain n1 where
      n1: "fst (bn_forward (bn1 m) a1) = Inr n1" "shape n1 = [1, latent]"
      by blast
    from linear_forward_shape[OF l2, of "relu n1" 1] n1(2) obtain a2 where
      a2: "linear_forward (fc2 m) (relu n1) = Inr a2" "shape a2 = [1, latent]"
      by (auto simp: relu_shape)
    from bn_forward_single[OF t2 a2(2)] a1(1) n1(1) a2(1) show ?thesis
      by (auto simp: hidden_bn_def split: sum.splits prod.splits)
  qed
qed

subsection \<open>Rows of the result\<close>

lemma concat_map_concat:
  "concat (map f (concat xss)) = concat (map (\<lambda>xs. concat (map f xs)) xss)"
  by (induction xss) simp_all

lemma length_encode_row: "length (encode_row n r) = length r * n"
  using concat_uniform_length[of "map (\<lambda>v. map real_of_int (one_hot_row n v)) r" n]
  by (simp add: encode_row_def length_one_hot_row)

lemma rows_uniform:
  assumes "length d = B * w" and "r \<in> set (rows w B d)"
  shows "length r = w"
proof -
  from assms(2) obtain i where i: "i < B" and r: "r = take w (drop (i * w) d)"
    by (auto simp: rows_def)
  have "i * w + w = Suc i * w" by simp
  also have "\<dots> \<le> B * w" using i by (intro mult_le_mono1) simp
  finally show ?thesis using assms(1) r by simp
qed

lemma encode_rows:
  assumes valid: "valid_state m B state"
  shows "\<exists>s. encode m state = Inr s \<and>
           rows (n_digits m * n_states_per_digit m) B (data s) =
             map (encode_row (n_states_per_digit m)) (rows (n_digits m) B (data state))"
proof -
  let ?n = "n_states_per_digit m" and ?D = "n_digits m"
  let ?Rs = "rows ?D B (data state)"
  from valid have sh: "shape state = [B, ?D]" and len: "length (data state) = B * ?D"
    by (simp_all add: valid_state_def tensor_ok_def numel_def)
  have uniR: "\<forall>r\<in>set ?Rs. length r = ?D"
    using rows_uniform[OF len] by blast
  have cat: "concat ?Rs = data state"
  proof (rule nth_equalityI)
    show l2: "length (concat ?Rs) = length (data state)"
      using concat_uniform_length[OF uniR] len by (simp add: length_rows)
    fix j assume "j < length (concat ?Rs)"
    then have j: "j < B * ?D" using l2 len by simp
    then have w: "0 < ?D" by (cases ?D) auto
    have jb: "j div ?D < B" using j w by (simp add: less_mult_imp_div_less)
    have "concat ?Rs ! (j div ?D * ?D + j mod ?D) = ?Rs ! (j div ?D) ! (j mod ?D)"
      using concat_uniform_nth[OF uniR, of "j div ?D" "j mod ?D"] jb w
      by (simp add: length_rows)
    also have "\<dots> = data state ! (j div ?D * ?D + j mod ?D)"
      using jb w len j by (simp add: rows_def)
    finally show "concat ?Rs ! j = data state ! j" by simp
  qed
  let ?s = "\<lparr>shape = [B, ?D * ?n],
             data = map real_of_int (concat (map (one_hot_row ?n) (data state)))\<rparr>"
  have "data ?s = concat (map (\<lambda>v. map real_of_int (one_hot_row ?n v)) (concat ?Rs))"
    by (simp add: cat map_concat comp_def)
  also have "\<dots> = concat (map (encode_row ?n) ?Rs)"
  proof -
    have "encode_row ?n = (\<lambda>xs. concat (map (\<lambda>v. map real_of_int (one_hot_row ?n v)) xs))"
      by (simp add: fun_eq_iff encode_row_def)
    then show ?thesis by (simp add: concat_map_concat)
  qed
  finally have d: "data ?s = concat (map (encode_row ?n) ?Rs)" .
  have "\<forall>xs\<in>set (map (encode_row ?n) ?Rs). length xs = ?D * ?n"
    using uniR by (simp add: length_encode_row)
  from rows_concat[OF this] have
    "rows (?D * ?n) B (data ?s) = map (encode_row ?n) ?Rs"
    unfolding d by (simp add: length_rows)
  with encode_valid[OF valid] show ?thesis by (intro exI[of _ ?s]) simp
qed

lemma forward_InitState_row:
  assumes init: "init_InitState latent m" and valid: "valid_state m B state" and b: "b < B"
  shows "\<exists>y. fst (forward_InitState m state) = Inr y \<and>
           rows (vocab_size m) B (data y) ! b =
             InitState_row m (encode_row (n_states_per_digit m)
                                (rows (n_digits m) B (data state) ! b))"
proof -
  let ?w = "n_digits m * n_states_per_digit m"
  from forward_InitState_rows[OF init valid] obtain s y where
    s: "encode m state = Inr s" and y: "forward_InitState m state = (Inr y, m)"
    and r: "rowwise y B (vocab_size m) (InitState_row m) (rows ?w B (data s))"
    by blast
  from encode_rows[OF valid] s have
    rs: "rows ?w B (data s) =
           map (encode_row (n_states_per_digit m)) (rows (n_digits m) B (data state))"
    by auto
  from r have uni: "\<forall>xs\<in>set (map (InitState_row m) (rows ?w B (data s))). length xs = vocab_size m"
    and d: "data y = concat (map (InitState_row m) (rows ?w B (data s)))"
    by (simp_all add: rowwise_def)
  from rows_concat[OF uni] have
    "rows (vocab_size m) B (data y) = map (InitState_row m) (rows ?w B (data s))"
    unfolding d by (simp add: length_rows)
  then have "rows (vocab_size m) B (data y) ! b =
      InitState_row m (encode_row (n_states_per_digit m) (rows (n_digits m) B (data state) ! b))"
    using b rs by (simp add: length_rows)
  with y show ?thesis by simp
qed

lemma forward_Action_row:
  assumes init: "init_Action latent m" and sh: "shape x = [B, vocab_size m]"
    and tok: "tensor_ok x" and b: "b < B"
  shows "\<exists>y. fst (forward_Action m junk x) = Inr y \<and>
           rows (n_digits m * n_states_per_digit m) B (data y) ! b =
             Action_row m (rows (vocab_size m) B (data x) ! b)"
proof -
  let ?R = "rows (vocab_size m) B (data x)"
  have uni: "\<forall>xs\<in>set (map (Action_row m) ?R). length xs = n_digits m * n_states_per_digit m"
    using length_Action_row[OF init] by simp
  from rows_concat[OF uni] have
    "rows (n_digits m * n_states_per_digit m) B (concat (map (Action_row m) ?R)) =
       map (Action_row m) ?R"
    by (simp add: length_rows)
  with forward_Action_rows[OF init sh tok, of junk] b show ?thesis
    by (simp add: length_rows)
qed

section \<open>The claims\<close>

text \<open>
  Claim C1. On every valid batch the encoding step returns the rows of width
  \<open>n_digits * n_states_per_digit\<close> in which block \<open>i\<close> of row \<open>b\<close> is the one-hot vector of
  digit \<open>i\<close> of state \<open>b\<close>: position \<open>k\<close> of the block is one when the digit is \<open>k\<close> and
  zero otherwise. With two digits of three states, the row \<open>[1, 2]\<close> is encoded as
  \<open>[0, 1, 0, 0, 0, 1]\<close>.
\<close>

theorem encode_one_hot_concat:
  assumes "valid_state m B state"
  shows "encode m state =
           Inr \<lparr>shape = [B, n_digits m * n_states_per_digit m],
                data = concat (map (\<lambda>v. map real_of_int (one_hot_row (n_states_per_digit m) v))
                                (data state))\<rparr> \<and>
         length (concat (map (\<lambda>v. map real_of_int (one_hot_row (n_states_per_digit m) v))
                                (data state))) = B * (n_digits m * n_states_per_digit m) \<and>
         (\<forall>b<B. \<forall>i<n_digits m. \<forall>k<n_states_per_digit m.
            concat (map (\<lambda>v. map real_of_int (one_hot_row (n_states_per_digit m) v))
                      (data state)) !
              (b * (n_digits m * n_states_per_digit m) + i * n_states_per_digit m + k) =
            (if int k = data state ! (b * n_digits m + i) then 1 else 0))"
proof -
  let ?n = "n_states_per_digit m"
  let ?d = "n_digits m"
  let ?blocks = "map (\<lambda>v. map real_of_int (one_hot_row ?n v)) (data state)"
  from assms have len: "length (data state) = B * ?d"
    and range: "\<forall>v\<in>set (data state). 0 \<le> v \<and> v < int ?n"
    by (simp_all add: valid_state_def tensor_ok_def numel_def list_all_iff)
  have uni: "\<forall>xs\<in>set ?blocks. length xs = ?n"
    by (simp add: length_one_hot_row)
  have enc: "encode m state = Inr \<lparr>shape = [B, ?d * ?n], data = concat ?blocks\<rparr>"
    by (simp add: encode_valid[OF assms] map_concat comp_def)
  have ok: "length (concat ?blocks) = B * (?d * ?n)"
    using concat_uniform_length[OF uni] len by simp
  have idx: "concat ?blocks ! (b * (?d * ?n) + i * ?n + k) =
               (if int k = data state ! (b * ?d + i) then 1 else 0)"
    if "b < B" "i < ?d" "k < ?n" for b i k
  proof -
    have "b * ?d + i < B * ?d"
    proof -
      have "b * ?d + i < Suc b * ?d" using that by simp
      also have "\<dots> \<le> B * ?d" using that by (intro mult_le_mono1) simp
      finally show ?thesis .
    qed
    then have pos: "b * ?d + i < length (data state)" using len by simp
    then have v: "0 \<le> data state ! (b * ?d + i)" using range by auto
    have "b * (?d * ?n) + i * ?n + k = (b * ?d + i) * ?n + k"
      by (simp add: algebra_simps)
    then have "concat ?blocks ! (b * (?d * ?n) + i * ?n + k) = ?blocks ! (b * ?d + i) ! k"
      using concat_uniform_nth[OF uni, of "b * ?d + i" k] pos that by simp
    also have "\<dots> = real_of_int (one_hot_row ?n (data state ! (b * ?d + i)) ! k)"
      using pos that by (simp add: length_one_hot_row)
    also have "\<dots> = (if int k = data state ! (b * ?d + i) then 1 else 0)"
      using one_hot_row_nth[OF v \<open>k < ?n\<close>] by simp
    finally show ?thesis .
  qed
  show ?thesis
    using enc ok idx by simp
qed

theorem encode_one_hot_concat_witness:
  "valid_state \<lparr>n_digits = 2, n_states_per_digit = 3, vocab_size = 5\<rparr> 1
      \<lparr>shape = [1, 2], data = [1, 2]\<rparr> \<and>
   encode \<lparr>n_digits = 2, n_states_per_digit = 3, vocab_size = 5\<rparr>
      \<lparr>shape = [1, 2], data = [1, 2]\<rparr> =
     Inr \<lparr>shape = [1, 6], data = [0, 1, 0, 0, 0, 1]\<rparr>"
proof -
  have v: "valid_state \<lparr>n_digits = 2, n_states_per_digit = 3, vocab_size = 5\<rparr> 1
      \<lparr>shape = [1, 2], data = [1, 2]\<rparr>"
    by (simp add: valid_state_def tensor_ok_def numel_def)
  show ?thesis
    using v encode_one_hot_concat[OF v] by (simp add: one_hot_row_def numeral_3_eq_3)
qed

text \<open>
  Counterexample to claim C2 as stated (every valid batch gives a result): a fresh module
  of the batch-normalised variant is in training mode, where the normalisation refuses a
  batch of a single state, so \<^verbatim>\<open>forward\<close> raises on the valid batch \<open>[[1, 2]]\<close>.
\<close>

theorem StateEncoder_single_state_counterexample:
  "fst (forward_InitState_bn encbn_ex state_ex) = Inl ValueError"
proof -
  have init: "init_InitState_bn 1 encbn_ex"
    by (simp add: init_InitState_bn_def encbn_ex_def Linear_ok_def BatchNorm1d_ok_def bn_ex_def)
  have valid: "valid_state encbn_ex 1 state_ex"
    by (simp add: valid_state_def encbn_ex_def state_ex_def tensor_ok_def numel_def)
  have tr: "training (bn1 encbn_ex) \<or> training (bn2 encbn_ex)"
    by (simp add: encbn_ex_def bn_ex_def)
  from init have l1: "Linear_ok (fc1 encbn_ex)
      (n_digits encbn_ex * n_states_per_digit encbn_ex) 1"
    and b1: "BatchNorm1d_ok (bn1 encbn_ex) 1" and l2: "Linear_ok (fc2 encbn_ex) 1 1"
    by (simp_all add: init_InitState_bn_def mult.commute)
  from encode_rowwise[OF valid] obtain s where
    s: "encode encbn_ex state_ex = Inr s"
       "shape s = [1, n_digits encbn_ex * n_states_per_digit encbn_ex]"
    by blast
  from hidden_bn_single[OF l1 b1 l2 s(2) tr] s(1) show ?thesis
    by (cases "hidden_bn encbn_ex s") (simp add: forward_InitState_bn_def)
qed

text \<open>
  Claim C2, as the code has it. On every valid batch the state encoder applies
  \<^verbatim>\<open>fc1\<close>, the rectifier, \<^verbatim>\<open>fc2\<close>, the rectifier and \<^verbatim>\<open>fc3\<close>, and returns the
  result of \<^verbatim>\<open>fc3\<close> as it is, a tensor of shape \<open>(B, vocab_size)\<close>; in the plain
  variant row \<open>b\<close> of the result is \<open>InitState_row\<close> of row \<open>b\<close> of the encoded batch.
  In the batch-normalised variant each hidden affine layer is followed by its
  normalisation layer before the rectifier, and the same holds except on a batch of a
  single state in training mode, where \<^verbatim>\<open>forward\<close> raises.
\<close>

theorem StateEncoder_layers:
  "(init_InitState latent m \<and> valid_state m B state \<longrightarrow>
      (\<exists>s a1 a2 y.
         encode m state = Inr s \<and>
         linear_forward (fc1 m) s = Inr a1 \<and>
         linear_forward (fc2 m) (relu a1) = Inr a2 \<and>
         linear_forward (fc3 m) (relu a2) = Inr y \<and>
         forward_InitState m state = (Inr y, m) \<and>
         shape y = [B, vocab_size m] \<and> tensor_ok y \<and>
         data y = concat (map (InitState_row m)
                    (rows (n_digits m * n_states_per_digit m) B (data s))))) \<and>
   (init_InitState_bn latent' m' \<and> valid_state m' B' state' \<and>
    \<not> (B' = 1 \<and> (training (bn1 m') \<or> training (bn2 m'))) \<longrightarrow>
      (\<exists>s a1 n1 a2 n2 y.
         encode m' state' = Inr s \<and>
         linear_forward (fc1 m') s = Inr a1 \<and>
         fst (bn_forward (bn1 m') a1) = Inr n1 \<and>
         linear_forward (fc2 m') (relu n1) = Inr a2 \<and>
         fst (bn_forward (bn2 m') a2) = Inr n2 \<and>
         linear_forward (fc3 m') (relu n2) = Inr y \<and>
         fst (forward_InitState_bn m' state') = Inr y \<and>
         shape y = [B', vocab_size m'] \<and> tensor_ok y)) \<and>
   (init_InitState_bn latent' m' \<and> valid_state m' 1 state' \<and>
    (training (bn1 m') \<or> training (bn2 m')) \<longrightarrow>
      fst (forward_InitState_bn m' state') = Inl ValueError)"
proof (intro conjI impI)
  assume a: "init_InitState latent m \<and> valid_state m B state"
  then have init: "init_InitState latent m" and valid: "valid_state m B state" by simp_all
  from forward_InitState_rows[OF init valid] obtain s a1 a2 y where
    c: "encode m state = Inr s" "linear_forward (fc1 m) s = Inr a1"
       "linear_forward (fc2 m) (relu a1) = Inr a2" "linear_forward (fc3 m) (relu a2) = Inr y"
       "forward_InitState m state = (Inr y, m)"
    and r: "rowwise y B (vocab_size m) (InitState_row m)
              (rows (n_digits m * n_states_per_digit m) B (data s))"
    by blast
  from r have "shape y = [B, vocab_size m]"
    "data y = concat (map (InitState_row m) (rows (n_digits m * n_states_per_digit m) B (data s)))"
    by (simp_all add: rowwise_def)
  with c rowwise_tensor_ok[OF r]
  show "\<exists>s a1 a2 y.
         encode m state = Inr s \<and>
         linear_forward (fc1 m) s = Inr a1 \<and>
         linear_forward (fc2 m) (relu a1) = Inr a2 \<and>
         linear_forward (fc3 m) (relu a2) = Inr y \<and>
         forward_InitState m state = (Inr y, m) \<and>
         shape y = [B, vocab_size m] \<and> tensor_ok y \<and>
         data y = concat (map (InitState_row m)
                    (rows (n_digits m * n_states_per_digit m) B (data s)))"
    by blast
next
  assume "init_InitState_bn latent' m' \<and> valid_state m' B' state' \<and>
    \<not> (B' = 1 \<and> (training (bn1 m') \<or> training (bn2 m')))"
  then show "\<exists>s a1 n1 a2 n2 y.
         encode m' state' = Inr s \<and>
         linear_forward (fc1 m') s = Inr a1 \<and>
         fst (bn_forward (bn1 m') a1) = Inr n1 \<and>
         linear_forward (fc2 m') (relu n1) = Inr a2 \<and>
         fst (bn_forward (bn2 m') a2) = Inr n2 \<and>
         linear_forward (fc3 m') (relu n2) = Inr y \<and>
         fst (forward_InitState_bn m' state') = Inr y \<and>
         shape y = [B', vocab_size m'] \<and> tensor_ok y"
    using forward_InitState_bn_layers[of latent' m' B' state'] by blast
next
  assume a: "init_InitState_bn latent' m' \<and> valid_state m' 1 state' \<and>
    (training (bn1 m') \<or> training (bn2 m'))"
  then have init: "init_InitState_bn latent' m'" and valid: "valid_state m' 1 state'"
    and tr: "training (bn1 m') \<or> training (bn2 m')" by simp_all
  from init have l1: "Linear_ok (fc1 m') (n_digits m' * n_states_per_digit m') latent'"
    and b1: "BatchNorm1d_ok (bn1 m') latent'" and l2: "Linear_ok (fc2 m') latent' latent'"
    by (simp_all add: init_InitState_bn_def mult.commute)
  from encode_rowwise[OF valid] obtain s where
    s: "encode m' state' = Inr s" "shape s = [1, n_digits m' * n_states_per_digit m']"
    by blast
  from hidden_bn_single[OF l1 b1 l2 s(2) tr] s(1)
  show "fst (forward_InitState_bn m' state') = Inl ValueError"
    by (cases "hidden_bn m' s") (simp add: forward_InitState_bn_def)
qed

lemma enc_ex_init: "init_InitState 1 enc_ex"
  by (simp add: init_InitState_def enc_ex_def Linear_ok_def)

lemma state_ex_valid: "valid_state enc_ex 1 state_ex"
  by (simp add: valid_state_def enc_ex_def state_ex_def tensor_ok_def numel_def)

lemma encbn_ex_init: "init_InitState_bn 1 encbn_ex"
  by (simp add: init_InitState_bn_def encbn_ex_def Linear_ok_def BatchNorm1d_ok_def bn_ex_def)

lemma states_ex_valid: "valid_state encbn_ex 2 states_ex"
  by (simp add: valid_state_def encbn_ex_def states_ex_def tensor_ok_def numel_def)

lemma enc_ex_forward:
  "forward_InitState enc_ex state_ex = (Inr \<lparr>shape = [1, 1], data = [- 7]\<rparr>, enc_ex)"
  by (simp add: forward_InitState_def encode_def one_hot_def shape0_def reshape_def
      infer_size_def float_def relu_def linear_forward_def rows_def affine_def dot_def
      one_hot_row_def numel_def enc_ex_def state_ex_def numeral_3_eq_3)

theorem StateEncoder_layers_witness:
  "init_InitState 1 enc_ex \<and> valid_state enc_ex 1 state_ex \<and>
   init_InitState_bn 1 encbn_ex \<and> valid_state encbn_ex 2 states_ex \<and>
   \<not> ((2::nat) = 1 \<and> (training (bn1 encbn_ex) \<or> training (bn2 encbn_ex))) \<and>
   valid_state encbn_ex 1 state_ex \<and>
   (training (bn1 encbn_ex) \<or> training (bn2 encbn_ex)) \<and>
   forward_InitState enc_ex state_ex = (Inr \<lparr>shape = [1, 1], data = [- 7]\<rparr>, enc_ex) \<and>
   (\<exists>y. fst (forward_InitState_bn encbn_ex states_ex) = Inr y \<and> shape y = [2, 1]) \<and>
   fst (forward_InitState_bn encbn_ex state_ex) = Inl ValueError"
proof -
  note t = StateEncoder_layers[where latent = 1 and m = enc_ex and B = 1 and state = state_ex
      and latent' = 1 and m' = encbn_ex and B' = 2 and state' = states_ex]
  note t' = StateEncoder_layers[where latent' = 1 and m' = encbn_ex and state' = state_ex]
  have nd: "\<not> ((2::nat) = 1 \<and> (training (bn1 encbn_ex) \<or> training (bn2 encbn_ex)))"
    by simp
  have v1: "valid_state encbn_ex 1 state_ex"
    by (simp add: valid_state_def encbn_ex_def state_ex_def tensor_ok_def numel_def)
  have tr: "training (bn1 encbn_ex) \<or> training (bn2 encbn_ex)"
    by (simp add: encbn_ex_def bn_ex_def)
  from t enc_ex_init state_ex_valid have
    "\<exists>y. forward_InitState enc_ex state_ex = (Inr y, enc_ex) \<and> shape y = [1, vocab_size enc_ex]"
    by blast
  moreover from t encbn_ex_init states_ex_valid nd have
    "\<exists>y. fst (forward_InitState_bn encbn_ex states_ex) = Inr y \<and>
         shape y = [2, vocab_size encbn_ex]"
    by blast
  moreover from t' encbn_ex_init v1 tr have
    "fst (forward_InitState_bn encbn_ex state_ex) = Inl ValueError"
    by blast
  moreover have "vocab_size encbn_ex = 1" by (simp add: encbn_ex_def)
  ultimately show ?thesis
    using enc_ex_init state_ex_valid encbn_ex_init states_ex_valid nd v1 tr enc_ex_forward
    by simp
qed

text \<open>
  Counterexample to claim C3 as stated (every batch gives a result, in both variants): a
  fresh module of the batch-normalised variant is in training mode, where the
  normalisation refuses a batch of a single symbol, so \<^verbatim>\<open>forward\<close> raises on the
  one-hot batch \<open>[[1, 0]]\<close>.
\<close>

theorem ActionDecoder_single_symbol_counterexample:
  "fst (forward_Action_bn actbn_ex symbol_ex) = Inl ValueError"
proof -
  have init: "init_Action_bn 1 actbn_ex"
    by (simp add: init_Action_bn_def actbn_ex_def Linear_ok_def BatchNorm1d_ok_def bn_ex_def)
  have sh: "shape symbol_ex = [1, vocab_size actbn_ex]"
    by (simp add: symbol_ex_def actbn_ex_def)
  have tr: "training (bn1 actbn_ex) \<or> training (bn2 actbn_ex)"
    by (simp add: actbn_ex_def bn_ex_def)
  from init have l1: "Linear_ok (fc1 actbn_ex) (vocab_size actbn_ex) 1"
    and b1: "BatchNorm1d_ok (bn1 actbn_ex) 1" and l2: "Linear_ok (fc2 actbn_ex) 1 1"
    by (simp_all add: init_Action_bn_def)
  from hidden_bn_single[OF l1 b1 l2 sh tr] show ?thesis
    by (cases "hidden_bn actbn_ex symbol_ex") (simp add: forward_Action_bn_def)
qed

text \<open>
  Claim C3, as the code has it. On every batch of \<open>B\<close> symbol vectors of width
  \<open>vocab_size\<close> (one-hot or not) the plain decoder returns a tensor of shape
  \<open>(B, n_digits, n_states_per_digit)\<close> whose entry \<open>[b, i, k]\<close> is score \<open>k\<close> of head
  \<open>i\<close> on the trunk's value for row \<open>b\<close>. The batch-normalised decoder returns a tensor
  of the same shape from the trunk and the single layer \<^verbatim>\<open>fc3\<close>, for a batch of at
  least one symbol and at least one digit, except on a batch of a single symbol in
  training mode, where \<^verbatim>\<open>forward\<close> raises.
\<close>

theorem ActionDecoder_shape:
  "(init_Action latent m \<and> shape x = [B, vocab_size m] \<and> tensor_ok x \<longrightarrow>
      (\<exists>y. forward_Action m junk x = (Inr y, m) \<and>
            shape y = [B, n_digits m, n_states_per_digit m] \<and> tensor_ok y \<and>
            (\<forall>b<B. \<forall>i<n_digits m. \<forall>k<n_states_per_digit m.
               at3 y b i k = Action_head m i (rows (vocab_size m) B (data x) ! b) ! k))) \<and>
   (init_Action_bn latent' m' \<and> shape x' = [B', vocab_size m'] \<and> 0 < B' \<and>
    0 < n_digits m' \<and> \<not> (B' = 1 \<and> (training (bn1 m') \<or> training (bn2 m'))) \<longrightarrow>
      (\<exists>h z y. fst (hidden_bn m' x') = Inr h \<and> shape h = [B', latent'] \<and>
            linear_forward (fc3 m') h = Inr z \<and>
            fst (forward_Action_bn m' x') = Inr y \<and>
            shape y = [B', n_digits m', n_states_per_digit m'] \<and> tensor_ok y)) \<and>
   (init_Action_bn latent' m' \<and> shape x' = [1, vocab_size m'] \<and>
    (training (bn1 m') \<or> training (bn2 m')) \<longrightarrow>
      fst (forward_Action_bn m' x') = Inl ValueError)"
proof (intro conjI impI)
  assume "init_Action latent m \<and> shape x = [B, vocab_size m] \<and> tensor_ok x"
  then show "\<exists>y. forward_Action m junk x = (Inr y, m) \<and>
            shape y = [B, n_digits m, n_states_per_digit m] \<and> tensor_ok y \<and>
            (\<forall>b<B. \<forall>i<n_digits m. \<forall>k<n_states_per_digit m.
               at3 y b i k = Action_head m i (rows (vocab_size m) B (data x) ! b) ! k)"
    using forward_Action_at3[of latent m x B junk] by blast
next
  assume a: "init_Action_bn latent' m' \<and> shape x' = [B', vocab_size m'] \<and> 0 < B' \<and>
    0 < n_digits m' \<and> \<not> (B' = 1 \<and> (training (bn1 m') \<or> training (bn2 m')))"
  from a forward_Action_bn_reshape[of latent' m' x' B'] obtain h z where
    hz: "fst (hidden_bn m' x') = Inr h" "shape h = [B', latent']"
        "linear_forward (fc3 m') h = Inr z"
        "shape z = [B', n_states_per_digit m' * n_digits m']" "tensor_ok z"
        "fst (forward_Action_bn m' x') =
           Inr \<lparr>shape = [B', n_digits m', n_states_per_digit m'], data = data z\<rparr>"
    by blast
  from hz(4,5) have
    "tensor_ok \<lparr>shape = [B', n_digits m', n_states_per_digit m'], data = data z\<rparr>"
    by (simp add: tensor_ok_def numel_def mult.commute)
  with hz show "\<exists>h z y. fst (hidden_bn m' x') = Inr h \<and> shape h = [B', latent'] \<and>
            linear_forward (fc3 m') h = Inr z \<and>
            fst (forward_Action_bn m' x') = Inr y \<and>
            shape y = [B', n_digits m', n_states_per_digit m'] \<and> tensor_ok y"
    by (intro exI[of _ h] exI[of _ z]
        exI[of _ "\<lparr>shape = [B', n_digits m', n_states_per_digit m'], data = data z\<rparr>"]) simp
next
  assume a: "init_Action_bn latent' m' \<and> shape x' = [1, vocab_size m'] \<and>
    (training (bn1 m') \<or> training (bn2 m'))"
  then have init: "init_Action_bn latent' m'" and sh: "shape x' = [1, vocab_size m']"
    and tr: "training (bn1 m') \<or> training (bn2 m')" by simp_all
  from init have l1: "Linear_ok (fc1 m') (vocab_size m') latent'"
    and b1: "BatchNorm1d_ok (bn1 m') latent'" and l2: "Linear_ok (fc2 m') latent' latent'"
    by (simp_all add: init_Action_bn_def)
  from hidden_bn_single[OF l1 b1 l2 sh tr]
  show "fst (forward_Action_bn m' x') = Inl ValueError"
    by (cases "hidden_bn m' x'") (simp add: forward_Action_bn_def)
qed

lemma act_ex_init: "init_Action 2 act_ex"
  by (simp add: init_Action_def act_ex_def Linear_ok_def)

lemma actbn_ex_init: "init_Action_bn 1 actbn_ex"
  by (simp add: init_Action_bn_def actbn_ex_def Linear_ok_def BatchNorm1d_ok_def bn_ex_def)

lemma symbols_ex_ok: "shape symbols_ex = [2, 2]" "tensor_ok symbols_ex"
  by (simp_all add: symbols_ex_def tensor_ok_def numel_def)

theorem ActionDecoder_shape_witness:
  "init_Action 2 act_ex \<and> shape symbols_ex = [2, vocab_size act_ex] \<and> tensor_ok symbols_ex \<and>
   init_Action_bn 1 actbn_ex \<and> shape symbols_ex = [2, vocab_size actbn_ex] \<and>
   (0::nat) < 2 \<and> 0 < n_digits actbn_ex \<and>
   \<not> ((2::nat) = 1 \<and> (training (bn1 actbn_ex) \<or> training (bn2 actbn_ex))) \<and>
   shape symbol_ex = [1, vocab_size actbn_ex] \<and>
   (training (bn1 actbn_ex) \<or> training (bn2 actbn_ex)) \<and>
   (\<exists>y. forward_Action act_ex (\<lambda>_. 0) symbols_ex = (Inr y, act_ex) \<and> shape y = [2, 2, 2]) \<and>
   (\<exists>y. fst (forward_Action_bn actbn_ex symbols_ex) = Inr y \<and> shape y = [2, 2, 3]) \<and>
   fst (forward_Action_bn actbn_ex symbol_ex) = Inl ValueError"
proof -
  note t = ActionDecoder_shape[where latent = 2 and m = act_ex and x = symbols_ex and B = 2
      and junk = "\<lambda>_. 0" and latent' = 1 and m' = actbn_ex and x' = symbols_ex and B' = 2]
  note t' = ActionDecoder_shape[where latent' = 1 and m' = actbn_ex and x' = symbol_ex]
  have va: "vocab_size act_ex = 2" "n_digits act_ex = 2" "n_states_per_digit act_ex = 2"
    by (simp_all add: act_ex_def)
  have vb: "vocab_size actbn_ex = 2" "n_digits actbn_ex = 2" "n_states_per_digit actbn_ex = 3"
    by (simp_all add: actbn_ex_def)
  have s1: "shape symbol_ex = [1, vocab_size actbn_ex]"
    by (simp add: symbol_ex_def vb)
  have tr: "training (bn1 actbn_ex) \<or> training (bn2 actbn_ex)"
    by (simp add: actbn_ex_def bn_ex_def)
  from t act_ex_init symbols_ex_ok va have
    "\<exists>y. forward_Action act_ex (\<lambda>_. 0) symbols_ex = (Inr y, act_ex) \<and> shape y = [2, 2, 2]"
    by auto
  moreover from t actbn_ex_init symbols_ex_ok vb have
    "\<exists>y. fst (forward_Action_bn actbn_ex symbols_ex) = Inr y \<and> shape y = [2, 2, 3]"
    by auto
  moreover from t' actbn_ex_init s1 tr have
    "fst (forward_Action_bn actbn_ex symbol_ex) = Inl ValueError"
    by blast
  ultimately show ?thesis
    using act_ex_init actbn_ex_init symbols_ex_ok va vb s1 tr by simp
qed

text \<open>
  Claim C4. In the plain decoder, replacing the two layers of digit \<open>j\<close>'s head by any
  layers of the same shapes (zeroed ones, for instance) leaves the scores of every other
  digit \<open>i\<close> as they were, on every batch of symbol vectors and whatever the
  uninitialised output buffers held.
\<close>

theorem heads_independent:
  assumes init: "init_Action latent m"
    and i: "i < n_digits m" and ij: "i \<noteq> j"
    and l3: "Linear_ok l3 latent (latent div 2)"
    and l4: "Linear_ok l4 (latent div 2) (n_states_per_digit m)"
    and sh: "shape x = [B, vocab_size m]" and tok: "tensor_ok x"
  shows "\<exists>y y'. fst (forward_Action m junk x) = Inr y \<and>
           fst (forward_Action
                  (m\<lparr>fc3_act := (fc3_act m)[j := l3], fc4_act := (fc4_act m)[j := l4]\<rparr>)
                  junk' x) = Inr y' \<and>
           shape y = [B, n_digits m, n_states_per_digit m] \<and> shape y' = shape y \<and>
           (\<forall>b<B. \<forall>k<n_states_per_digit m. at3 y' b i k = at3 y b i k)"
proof -
  let ?m' = "m\<lparr>fc3_act := (fc3_act m)[j := l3], fc4_act := (fc4_act m)[j := l4]\<rparr>"
  from forward_Action_at3[OF init sh tok, of junk] obtain y where
    y: "forward_Action m junk x = (Inr y, m)"
       "shape y = [B, n_digits m, n_states_per_digit m]"
       "\<forall>b<B. \<forall>i<n_digits m. \<forall>k<n_states_per_digit m.
          at3 y b i k = Action_head m i (rows (vocab_size m) B (data x) ! b) ! k"
    by blast
  have init': "init_Action latent ?m'"
    using init_Action_update[OF init l3 l4] .
  have sh': "shape x = [B, vocab_size ?m']" using sh by simp
  from forward_Action_at3[OF init' sh' tok, of junk'] obtain y' where
    y': "forward_Action ?m' junk' x = (Inr y', ?m')"
        "shape y' = [B, n_digits m, n_states_per_digit m]"
        "\<forall>b<B. \<forall>i<n_digits m. \<forall>k<n_states_per_digit m.
           at3 y' b i k = Action_head ?m' i (rows (vocab_size m) B (data x) ! b) ! k"
    by auto
  have "at3 y' b i k = at3 y b i k" if "b < B" "k < n_states_per_digit m" for b k
    using y(3) y'(3) i that Action_head_update[OF ij, where m = m and ?l3.0 = l3 and ?l4.0 = l4]
    by simp
  with y(1,2) y'(1,2) show ?thesis by simp
qed

lemma zero_heads_ok:
  "Linear_ok zero_head3 2 (2 div 2)" "Linear_ok zero_head4 (2 div 2) (n_states_per_digit act_ex)"
  by (simp_all add: zero_head3_def zero_head4_def Linear_ok_def act_ex_def)

theorem heads_independent_witness:
  "init_Action 2 act_ex \<and> (0::nat) < n_digits act_ex \<and> (0::nat) \<noteq> 1 \<and>
   Linear_ok zero_head3 2 (2 div 2) \<and>
   Linear_ok zero_head4 (2 div 2) (n_states_per_digit act_ex) \<and>
   shape symbols_ex = [2, vocab_size act_ex] \<and> tensor_ok symbols_ex \<and>
   (\<exists>y y'. fst (forward_Action act_ex (\<lambda>_. 0) symbols_ex) = Inr y \<and>
      fst (forward_Action
             (act_ex\<lparr>fc3_act := (fc3_act act_ex)[1 := zero_head3],
                     fc4_act := (fc4_act act_ex)[1 := zero_head4]\<rparr>)
             (\<lambda>_. 1) symbols_ex) = Inr y' \<and>
      at3 y' 0 0 0 = at3 y 0 0 0 \<and> at3 y' 1 0 1 = at3 y 1 0 1)"
proof -
  have c: "n_digits act_ex = 2" "vocab_size act_ex = 2" "n_states_per_digit act_ex = 2"
    by (simp_all add: act_ex_def)
  have i: "(0::nat) < n_digits act_ex" and ij: "(0::nat) \<noteq> 1" using c by simp_all
  have sh: "shape symbols_ex = [2, vocab_size act_ex]" using symbols_ex_ok c by simp
  from heads_independent[OF act_ex_init i ij zero_heads_ok sh symbols_ex_ok(2),
      of "\<lambda>_. 0" "\<lambda>_. 1"]
  have "\<exists>y y'. fst (forward_Action act_ex (\<lambda>_. 0) symbols_ex) = Inr y \<and>
      fst (forward_Action
             (act_ex\<lparr>fc3_act := (fc3_act act_ex)[1 := zero_head3],
                     fc4_act := (fc4_act act_ex)[1 := zero_head4]\<rparr>)
             (\<lambda>_. 1) symbols_ex) = Inr y' \<and>
      at3 y' 0 0 0 = at3 y 0 0 0 \<and> at3 y' 1 0 1 = at3 y 1 0 1"
    using c by fastforce
  with act_ex_init i ij zero_heads_ok sh symbols_ex_ok(2) show ?thesis by blast
qed

text \<open>
  Claim C5. In the batch-normalised decoder the result is the output of the single layer
  \<^verbatim>\<open>fc3\<close> on the trunk's value, with the same elements in the same row-major order
  under the shape \<open>(B, n_digits, n_states_per_digit)\<close>: entry \<open>[b, i, k]\<close> of the result
  is entry \<open>[b, i * n_states_per_digit + k]\<close> of \<^verbatim>\<open>fc3\<close>'s output.
\<close>

theorem ActionDecoder_bn_reshape:
  assumes init: "init_Action_bn latent m" and sh: "shape x = [B, vocab_size m]"
    and B: "0 < B" and D: "0 < n_digits m"
    and nd: "\<not> (B = 1 \<and> (training (bn1 m) \<or> training (bn2 m)))"
  shows "\<exists>h z y. fst (hidden_bn m x) = Inr h \<and>
           linear_forward (fc3 m) h = Inr z \<and>
           shape z = [B, n_states_per_digit m * n_digits m] \<and>
           fst (forward_Action_bn m x) = Inr y \<and>
           shape y = [B, n_digits m, n_states_per_digit m] \<and>
           data y = data z \<and>
           (\<forall>b<B. \<forall>i<n_digits m. \<forall>k<n_states_per_digit m.
              at3 y b i k = at2 z b (i * n_states_per_digit m + k))"
proof -
  let ?D = "n_digits m" and ?n = "n_states_per_digit m"
  from forward_Action_bn_reshape[OF init sh B D nd] obtain h z where
    hz: "fst (hidden_bn m x) = Inr h" "linear_forward (fc3 m) h = Inr z"
        "shape z = [B, ?n * ?D]"
        "fst (forward_Action_bn m x) = Inr \<lparr>shape = [B, ?D, ?n], data = data z\<rparr>"
    by blast
  let ?y = "\<lparr>shape = [B, ?D, ?n], data = data z\<rparr>"
  have "at3 ?y b i k = at2 z b (i * ?n + k)" for b i k
    using hz(3) by (simp add: at3_def at2_def algebra_simps)
  with hz show ?thesis
    by (intro exI[of _ h] exI[of _ z] exI[of _ ?y]) simp
qed

lemma acteval_ex_init: "init_Action_bn 1 acteval_ex"
  by (simp add: init_Action_bn_def acteval_ex_def actbn_ex_def Linear_ok_def
      BatchNorm1d_ok_def bn_eval_ex_def)

lemma acteval_ex_hidden:
  "hidden_bn acteval_ex symbols_ex = (Inr \<lparr>shape = [2, 1], data = [1, 2]\<rparr>, acteval_ex)"
  by (simp add: hidden_bn_def linear_forward_def rows_def affine_def dot_def relu_def
      bn_forward_def normalize_def numel_def acteval_ex_def actbn_ex_def bn_eval_ex_def
      symbols_ex_def Let_def upt_conv_Cons)

lemma acteval_ex_forward:
  "forward_Action_bn acteval_ex symbols_ex =
     (Inr \<lparr>shape = [2, 2, 3], data = [1, 2, 3, 4, 5, 6, 2, 4, 6, 8, 10, 12]\<rparr>, acteval_ex)"
  unfolding forward_Action_bn_def acteval_ex_hidden
  by (simp add: linear_forward_def rows_def affine_def dot_def shape0_def reshape_def
      infer_size_def numel_def upt_conv_Cons acteval_ex_def actbn_ex_def)

theorem ActionDecoder_bn_reshape_witness:
  "init_Action_bn 1 acteval_ex \<and> shape symbols_ex = [2, vocab_size acteval_ex] \<and>
   (0::nat) < 2 \<and> 0 < n_digits acteval_ex \<and>
   \<not> ((2::nat) = 1 \<and> (training (bn1 acteval_ex) \<or> training (bn2 acteval_ex))) \<and>
   (\<exists>z. linear_forward (fc3 acteval_ex) \<lparr>shape = [2, 1], data = [1, 2]\<rparr> = Inr z \<and>
        at2 z 1 (1 * 3 + 2) = 12 \<and>
        at3 \<lparr>shape = [2, 2, 3], data = [1, 2, 3, 4, 5, 6, 2, 4, 6, 8, 10, 12]\<rparr> 1 1 2 =
          at2 z 1 (1 * 3 + 2))"
proof -
  have c: "vocab_size acteval_ex = 2" "n_digits acteval_ex = 2"
      "n_states_per_digit acteval_ex = 3"
    by (simp_all add: acteval_ex_def actbn_ex_def)
  have sh: "shape symbols_ex = [2, vocab_size acteval_ex]" using symbols_ex_ok c by simp
  have B: "(0::nat) < 2" and D: "0 < n_digits acteval_ex" using c by simp_all
  have nd: "\<not> ((2::nat) = 1 \<and> (training (bn1 acteval_ex) \<or> training (bn2 acteval_ex)))"
    by simp
  from ActionDecoder_bn_reshape[OF acteval_ex_init sh B D nd] obtain h z y where
    r: "fst (hidden_bn acteval_ex symbols_ex) = Inr h"
       "linear_forward (fc3 acteval_ex) h = Inr z"
       "fst (forward_Action_bn acteval_ex symbols_ex) = Inr y"
       "\<forall>b<2. \<forall>i<n_digits acteval_ex. \<forall>k<n_states_per_digit acteval_ex.
          at3 y b i k = at2 z b (i * n_states_per_digit acteval_ex + k)"
    by blast
  from r(1) have h: "h = \<lparr>shape = [2, 1], data = [1, 2]\<rparr>"
    by (simp add: acteval_ex_hidden)
  from r(3) have y: "y = \<lparr>shape = [2, 2, 3], data = [1, 2, 3, 4, 5, 6, 2, 4, 6, 8, 10, 12]\<rparr>"
    by (simp add: acteval_ex_forward)
  from r(4) c have e: "at3 y 1 1 2 = at2 z 1 (1 * 3 + 2)" by simp
  have "at3 y 1 1 2 = 12" unfolding y by (simp add: at3_def)
  with e r(2) h y have "linear_forward (fc3 acteval_ex) \<lparr>shape = [2, 1], data = [1, 2]\<rparr> = Inr z \<and>
        at2 z 1 (1 * 3 + 2) = 12 \<and>
        at3 \<lparr>shape = [2, 2, 3], data = [1, 2, 3, 4, 5, 6, 2, 4, 6, 8, 10, 12]\<rparr> 1 1 2 =
          at2 z 1 (1 * 3 + 2)"
    by simp
  with acteval_ex_init sh B D nd show ?thesis by blast
qed

lemma one_hot_rejects:
  assumes ok: "tensor_ok state"
    and bad: "list_ex (\<lambda>v. v < 0 \<or> int n \<le> v) (data state)"
  shows "one_hot state n = Inl RuntimeError"
proof -
  from bad have ne: "data state \<noteq> []" by auto
  then have "length (data state) \<noteq> 0" by simp
  with ok have "numel state \<noteq> 0" by (simp add: tensor_ok_def)
  moreover from bad have
    "list_ex (\<lambda>v. v < 0) (data state) \<or> list_ex (\<lambda>v. int n \<le> v) (data state)"
    by (auto simp: list_ex_iff)
  ultimately show ?thesis by (auto simp: one_hot_def)
qed

text \<open>
  Counterexample to claim C6 as stated (an out-of-range digit is silently encoded as a
  row of zeros): the state \<open>[1, 3]\<close> with three states per digit is refused by the
  one-hot step, and \<^verbatim>\<open>forward\<close> raises.
\<close>

theorem one_hot_out_of_range_counterexample:
  "encode enc_ex bad_state_ex = Inl RuntimeError \<and>
   forward_InitState enc_ex bad_state_ex = (Inl RuntimeError, enc_ex)"
  by (simp add: forward_InitState_def encode_def one_hot_def numel_def bad_state_ex_def
      enc_ex_def)

text \<open>
  Claim C6, as the code has it. The source checks nothing itself, and the library's
  one-hot step does not pad with zeros: on a tensor holding a digit below zero or not
  below \<open>n_states_per_digit\<close> it raises, so \<^verbatim>\<open>forward\<close> of either variant fails at
  its first statement, before any layer runs, and leaves the module as it was. No row
  of zeros is produced; the batch \<open>[1, 3]\<close> with three states per digit is refused.
\<close>

theorem one_hot_out_of_range_rejected:
  "tensor_ok state \<and> list_ex (\<lambda>v. v < 0 \<or> int n \<le> v) (data state) \<longrightarrow>
     one_hot state n = Inl RuntimeError \<and>
     (n_states_per_digit m = n \<longrightarrow> forward_InitState m state = (Inl RuntimeError, m)) \<and>
     (n_states_per_digit m' = n \<longrightarrow> forward_InitState_bn m' state = (Inl RuntimeError, m'))"
  using one_hot_rejects[of state n]
  by (auto simp: forward_InitState_def forward_InitState_bn_def encode_def)

theorem one_hot_out_of_range_rejected_witness:
  "tensor_ok bad_state_ex \<and> list_ex (\<lambda>v. v < 0 \<or> int 3 \<le> v) (data bad_state_ex) \<and>
   n_states_per_digit enc_ex = 3 \<and> n_states_per_digit encbn_ex = 3 \<and>
   one_hot bad_state_ex 3 = Inl RuntimeError \<and>
   forward_InitState enc_ex bad_state_ex = (Inl RuntimeError, enc_ex) \<and>
   forward_InitState_bn encbn_ex bad_state_ex = (Inl RuntimeError, encbn_ex)"
proof -
  have h: "tensor_ok bad_state_ex \<and> list_ex (\<lambda>v. v < 0 \<or> int 3 \<le> v) (data bad_state_ex)"
    by (simp add: bad_state_ex_def tensor_ok_def numel_def)
  have n: "n_states_per_digit enc_ex = 3" "n_states_per_digit encbn_ex = 3"
    by (simp_all add: enc_ex_def encbn_ex_def)
  from one_hot_out_of_range_rejected[of bad_state_ex 3 enc_ex encbn_ex] h n
  show ?thesis by simp
qed

text \<open>
  Counterexample to claim C7 as stated (no forward pass mutates a running statistic): a
  fresh module of the batch-normalised variant is in training mode, and a successful
  forward pass of the decoder on a batch of two symbols moves the running mean of
  \<^verbatim>\<open>bn1\<close> from \<open>0\<close> to \<open>3/20\<close> and its batch counter from \<open>0\<close> to \<open>1\<close>.
\<close>

theorem forward_mutates_statistics_counterexample:
  "\<not> isl (fst (forward_Action_bn actbn_ex symbols_ex)) \<and>
   running_mean (bn1 actbn_ex) = [0] \<and>
   running_mean (bn1 (snd (forward_Action_bn actbn_ex symbols_ex))) = [3 / 20] \<and>
   num_batches_tracked (bn1 actbn_ex) = 0 \<and>
   num_batches_tracked (bn1 (snd (forward_Action_bn actbn_ex symbols_ex))) = 1"
proof -
  have tr: "training (bn1 actbn_ex)" and ok: "BatchNorm1d_ok (bn1 actbn_ex) 1"
    and rm: "running_mean (bn1 actbn_ex) = [0]" and mo: "momentum (bn1 actbn_ex) = 1 / 10"
    and nb: "num_batches_tracked (bn1 actbn_ex) = 0"
    by (simp_all add: actbn_ex_def bn_ex_def BatchNorm1d_ok_def)
  have c: "vocab_size actbn_ex = 2" "n_digits actbn_ex = 2"
    by (simp_all add: actbn_ex_def)
  have "\<exists>y. fst (forward_Action_bn actbn_ex symbols_ex) = Inr y"
    using forward_Action_bn_reshape[OF actbn_ex_init, of symbols_ex 2] symbols_ex_ok(1) c
    by auto
  then have ret: "\<not> isl (fst (forward_Action_bn actbn_ex symbols_ex))" by auto
  have "running_mean (bn1 (snd (hidden_bn actbn_ex symbols_ex))) =
          update_stat (momentum (bn1 actbn_ex)) (running_mean (bn1 actbn_ex))
            (map (\<lambda>c. mean (channel 2 1 1 (data \<lparr>shape = [2, 1], data = [1, 2::real]\<rparr>) c))
               [0..<1])"
    by (rule hidden_bn_running_mean[OF tr actbn_ex_fc1 _ _ _ ok]) (simp_all add: numel_def)
  also have "\<dots> = [3 / 20]"
    by (simp add: rm mo update_stat_def mean_def channel_def upt_conv_Cons)
  finally have mean': "running_mean (bn1 (snd (forward_Action_bn actbn_ex symbols_ex))) = [3 / 20]"
    by (simp add: forward_Action_bn_snd)
  have "num_batches_tracked (bn1 (snd (hidden_bn actbn_ex symbols_ex))) =
          num_batches_tracked (bn1 actbn_ex) + 1"
    by (rule hidden_bn_counts[OF tr actbn_ex_fc1]) simp
  then have "num_batches_tracked (bn1 (snd (forward_Action_bn actbn_ex symbols_ex))) = 1"
    using nb by (simp add: forward_Action_bn_snd)
  with ret rm mean' nb show ?thesis by simp
qed

text \<open>
  Claim C7, as the code has it. A forward pass of the plain modules returns the module
  unchanged. A forward pass of a batch-normalised module never changes a configuration
  field, a weight or bias of a linear layer, or the scale, shift, \<open>eps\<close>, \<open>momentum\<close>
  or mode of a normalisation layer; in evaluation mode it changes nothing at all. In
  training mode the normalisation layers update their running statistics.
\<close>

theorem forward_frame:
  "snd (forward_InitState m state) = m \<and>
   snd (forward_Action ma junk x) = ma \<and>
   parameters_kept ms (snd (forward_InitState_bn ms state)) \<and>
   parameters_kept ms (snd (forward_Action_bn ms x)) \<and>
   (\<not> training (bn1 ms) \<and> \<not> training (bn2 ms) \<longrightarrow>
      snd (forward_InitState_bn ms state) = ms \<and> snd (forward_Action_bn ms x) = ms)"
  by (simp add: forward_InitState_snd forward_Action_snd forward_InitState_bn_parameters
      forward_Action_bn_snd hidden_bn_parameters forward_InitState_bn_eval hidden_bn_eval)

theorem forward_frame_witness:
  "\<not> training (bn1 acteval_ex) \<and> \<not> training (bn2 acteval_ex) \<and>
   snd (forward_InitState enc_ex state_ex) = enc_ex \<and>
   snd (forward_Action act_ex (\<lambda>_. 0) symbols_ex) = act_ex \<and>
   snd (forward_InitState_bn acteval_ex state_ex) = acteval_ex \<and>
   snd (forward_Action_bn acteval_ex symbols_ex) = acteval_ex \<and>
   parameters_kept actbn_ex (snd (forward_Action_bn actbn_ex symbols_ex))"
proof -
  have e: "\<not> training (bn1 acteval_ex) \<and> \<not> training (bn2 acteval_ex)"
    by (simp add: acteval_ex_def bn_eval_ex_def)
  from forward_frame[of enc_ex state_ex act_ex "\<lambda>_. 0" symbols_ex acteval_ex]
    forward_frame[of enc_ex state_ex act_ex "\<lambda>_. 0" symbols_ex actbn_ex] e
  show ?thesis by simp
qed

text \<open>
  Claim C8. A second forward call on the module the first call left, with the same
  input, returns what the first call returned: for the plain encoder, for the plain
  decoder whatever the two uninitialised output buffers held, and for both
  batch-normalised modules in evaluation mode. This holds for every module and input,
  raised exceptions included; rounding of floating-point arithmetic is not modelled.
\<close>

theorem forward_deterministic:
  "forward_InitState (snd (forward_InitState m state)) state = forward_InitState m state \<and>
   forward_Action (snd (forward_Action ma junk x)) junk' x = forward_Action ma junk x \<and>
   (\<not> training (bn1 ms) \<and> \<not> training (bn2 ms) \<longrightarrow>
      forward_InitState_bn (snd (forward_InitState_bn ms state)) state =
        forward_InitState_bn ms state \<and>
      forward_Action_bn (snd (forward_Action_bn ms x)) x = forward_Action_bn ms x)"
  using forward_Action_junk[of ma junk' x junk]
  by (simp add: forward_InitState_snd forward_Action_snd forward_InitState_bn_eval
      forward_Action_bn_snd hidden_bn_eval)

theorem forward_deterministic_witness:
  "\<not> training (bn1 acteval_ex) \<and> \<not> training (bn2 acteval_ex) \<and>
   forward_Action (snd (forward_Action act_ex (\<lambda>_. 0) symbols_ex)) (\<lambda>_. 1) symbols_ex =
     forward_Action act_ex (\<lambda>_. 0) symbols_ex \<and>
   forward_InitState (snd (forward_InitState enc_ex state_ex)) state_ex =
     forward_InitState enc_ex state_ex \<and>
   forward_Action_bn (snd (forward_Action_bn acteval_ex symbols_ex)) symbols_ex =
     (Inr \<lparr>shape = [2, 2, 3], data = [1, 2, 3, 4, 5, 6, 2, 4, 6, 8, 10, 12]\<rparr>, acteval_ex)"
proof -
  have e: "\<not> training (bn1 acteval_ex) \<and> \<not> training (bn2 acteval_ex)"
    by (simp add: acteval_ex_def bn_eval_ex_def)
  from forward_deterministic[of enc_ex state_ex act_ex "\<lambda>_. 0" symbols_ex "\<lambda>_. 1" acteval_ex] e
  show ?thesis by (simp add: acteval_ex_forward)
qed

text \<open>
  Claim C9. With one digit, a vocabulary of one symbol and a batch of one element, the
  forward pass of each module returns a result: the plain encoder and the plain decoder
  always (in the decoder the head's scores, of shape \<open>(1, n_states_per_digit)\<close> with a
  leading dimension added, are broadcast into their slice also when every dimension is
  one), the batch-normalised modules in evaluation mode. In training mode a
  batch-normalised module raises the error by which the normalisation refuses a batch of
  one element.
\<close>

theorem boundary_forward:
  "(init_InitState latent m \<and> n_digits m = 1 \<and> vocab_size m = 1 \<and> valid_state m 1 state \<longrightarrow>
      (\<exists>y. fst (forward_InitState m state) = Inr y \<and> shape y = [1, 1])) \<and>
   (init_Action latent ma \<and> n_digits ma = 1 \<and> vocab_size ma = 1 \<and>
    shape x = [1, 1] \<and> tensor_ok x \<longrightarrow>
      (\<exists>y. fst (forward_Action ma junk x) = Inr y \<and>
            shape y = [1, 1, n_states_per_digit ma])) \<and>
   (init_InitState_bn latent ms \<and> n_digits ms = 1 \<and> vocab_size ms = 1 \<and>
    valid_state ms 1 state \<longrightarrow>
      (if training (bn1 ms) \<or> training (bn2 ms)
       then fst (forward_InitState_bn ms state) = Inl ValueError
       else \<exists>y. fst (forward_InitState_bn ms state) = Inr y \<and> shape y = [1, 1])) \<and>
   (init_Action_bn latent mt \<and> n_digits mt = 1 \<and> vocab_size mt = 1 \<and> shape x = [1, 1] \<longrightarrow>
      (if training (bn1 mt) \<or> training (bn2 mt)
       then fst (forward_Action_bn mt x) = Inl ValueError
       else \<exists>y. fst (forward_Action_bn mt x) = Inr y \<and>
                shape y = [1, 1, n_states_per_digit mt]))"
proof (intro conjI impI)
  assume "init_InitState latent m \<and> n_digits m = 1 \<and> vocab_size m = 1 \<and> valid_state m 1 state"
  then show "\<exists>y. fst (forward_InitState m state) = Inr y \<and> shape y = [1, 1]"
    using forward_InitState_rows[of latent m 1 state] by (auto simp: rowwise_def)
next
  assume "init_Action latent ma \<and> n_digits ma = 1 \<and> vocab_size ma = 1 \<and>
    shape x = [1, 1] \<and> tensor_ok x"
  then show "\<exists>y. fst (forward_Action ma junk x) = Inr y \<and>
            shape y = [1, 1, n_states_per_digit ma]"
    using forward_Action_rows[of latent ma x 1 junk] by simp
next
  assume a: "init_InitState_bn latent ms \<and> n_digits ms = 1 \<and> vocab_size ms = 1 \<and>
    valid_state ms 1 state"
  show "if training (bn1 ms) \<or> training (bn2 ms)
       then fst (forward_InitState_bn ms state) = Inl ValueError
       else \<exists>y. fst (forward_InitState_bn ms state) = Inr y \<and> shape y = [1, 1]"
  proof (cases "training (bn1 ms) \<or> training (bn2 ms)")
    case True
    from a have init: "init_InitState_bn latent ms" by simp
    from init have l1: "Linear_ok (fc1 ms) (n_digits ms * n_states_per_digit ms) latent"
      and b1: "BatchNorm1d_ok (bn1 ms) latent" and l2: "Linear_ok (fc2 ms) latent latent"
      by (simp_all add: init_InitState_bn_def mult.commute)
    from a encode_rowwise[of ms 1 state] obtain s where
      s: "encode ms state = Inr s" "shape s = [1, n_digits ms * n_states_per_digit ms]"
      by blast
    from hidden_bn_single[OF l1 b1 l2 s(2) True] s(1) have
      "fst (forward_InitState_bn ms state) = Inl ValueError"
      by (cases "hidden_bn ms s") (simp add: forward_InitState_bn_def)
    with True show ?thesis by simp
  next
    case False
    with a forward_InitState_bn_layers[of latent ms 1 state] show ?thesis by auto
  qed
next
  assume a: "init_Action_bn latent mt \<and> n_digits mt = 1 \<and> vocab_size mt = 1 \<and> shape x = [1, 1]"
  show "if training (bn1 mt) \<or> training (bn2 mt)
       then fst (forward_Action_bn mt x) = Inl ValueError
       else \<exists>y. fst (forward_Action_bn mt x) = Inr y \<and>
                shape y = [1, 1, n_states_per_digit mt]"
  proof (cases "training (bn1 mt) \<or> training (bn2 mt)")
    case True
    from a have init: "init_Action_bn latent mt" and sh: "shape x = [1, vocab_size mt]"
      by simp_all
    from init have l1: "Linear_ok (fc1 mt) (vocab_size mt) latent"
      and b1: "BatchNorm1d_ok (bn1 mt) latent" and l2: "Linear_ok (fc2 mt) latent latent"
      by (simp_all add: init_Action_bn_def)
    from hidden_bn_single[OF l1 b1 l2 sh True] have
      "fst (forward_Action_bn mt x) = Inl ValueError"
      by (cases "hidden_bn mt x") (simp add: forward_Action_bn_def)
    with True show ?thesis by simp
  next
    case False
    with a forward_Action_bn_reshape[of latent mt x 1] show ?thesis by auto
  qed
qed

lemma boundary_examples:
  "init_InitState 1 enc1_ex" "valid_state enc1_ex 1 state1_ex"
  "init_Action 2 act1_ex" "shape symbol1_ex = [1, 1]" "tensor_ok symbol1_ex"
  "init_InitState_bn 1 encbn1_ex" "valid_state encbn1_ex 1 state1_ex"
  "init_Action_bn 1 actbn1_ex"
  by (simp_all add: init_InitState_def init_Action_def init_InitState_bn_def
      init_Action_bn_def Linear_ok_def BatchNorm1d_ok_def valid_state_def tensor_ok_def
      numel_def enc1_ex_def act1_ex_def encbn1_ex_def actbn1_ex_def bn_eval_ex_def
      state1_ex_def symbol1_ex_def)

theorem boundary_forward_witness:
  "init_InitState 1 enc1_ex \<and> n_digits enc1_ex = 1 \<and> vocab_size enc1_ex = 1 \<and>
   valid_state enc1_ex 1 state1_ex \<and>
   init_Action 2 act1_ex \<and> n_digits act1_ex = 1 \<and> vocab_size act1_ex = 1 \<and>
   shape symbol1_ex = [1, 1] \<and> tensor_ok symbol1_ex \<and>
   init_InitState_bn 1 encbn1_ex \<and> n_digits encbn1_ex = 1 \<and> vocab_size encbn1_ex = 1 \<and>
   valid_state encbn1_ex 1 state1_ex \<and>
   init_Action_bn 1 actbn1_ex \<and> n_digits actbn1_ex = 1 \<and> vocab_size actbn1_ex = 1 \<and>
   (\<exists>y. fst (forward_InitState enc1_ex state1_ex) = Inr y \<and> shape y = [1, 1]) \<and>
   (\<exists>y. fst (forward_Action act1_ex (\<lambda>_. 7) symbol1_ex) = Inr y \<and> shape y = [1, 1, 1]) \<and>
   (\<exists>y. fst (forward_InitState_bn encbn1_ex state1_ex) = Inr y \<and> shape y = [1, 1]) \<and>
   (\<exists>y. fst (forward_Action_bn actbn1_ex symbol1_ex) = Inr y \<and> shape y = [1, 1, 2])"
proof -
  have c: "n_digits enc1_ex = 1" "vocab_size enc1_ex = 1"
      "n_digits act1_ex = 1" "vocab_size act1_ex = 1" "n_states_per_digit act1_ex = 1"
      "n_digits encbn1_ex = 1" "vocab_size encbn1_ex = 1"
      "n_digits actbn1_ex = 1" "vocab_size actbn1_ex = 1" "n_states_per_digit actbn1_ex = 2"
    by (simp_all add: enc1_ex_def act1_ex_def encbn1_ex_def actbn1_ex_def)
  have e: "\<not> (training (bn1 encbn1_ex) \<or> training (bn2 encbn1_ex))"
      "\<not> (training (bn1 actbn1_ex) \<or> training (bn2 actbn1_ex))"
    by (simp_all add: encbn1_ex_def actbn1_ex_def bn_eval_ex_def)
  note t1 = boundary_forward[where latent = 1 and m = enc1_ex and state = state1_ex
      and ms = encbn1_ex and mt = actbn1_ex and x = symbol1_ex]
  note t2 = boundary_forward[where latent = 2 and ma = act1_ex and x = symbol1_ex
      and junk = "\<lambda>_. 7"]
  from t1 boundary_examples c have
    "\<exists>y. fst (forward_InitState enc1_ex state1_ex) = Inr y \<and> shape y = [1, 1]"
    by blast
  moreover from t2 boundary_examples c have
    "\<exists>y. fst (forward_Action act1_ex (\<lambda>_. 7) symbol1_ex) = Inr y \<and> shape y = [1, 1, 1]"
    by auto
  moreover from t1 boundary_examples c e have
    "\<exists>y. fst (forward_InitState_bn encbn1_ex state1_ex) = Inr y \<and> shape y = [1, 1]"
    by auto
  moreover from t1 boundary_examples c e have
    "\<exists>y. fst (forward_Action_bn actbn1_ex symbol1_ex) = Inr y \<and> shape y = [1, 1, 2]"
    by auto
  ultimately show ?thesis using boundary_examples c by simp
qed

text \<open>
  Claim C10. In the plain variant row \<open>b\<close> of the result is a function of row \<open>b\<close> of
  the input alone: \<open>InitState_row\<close> of the encoded state for the encoder, \<open>Action_row\<close>
  of the symbol vector for the decoder. So two batches, of any sizes, that agree on row
  \<open>b\<close> give results that agree on row \<open>b\<close>.
\<close>

theorem rows_independent:
  "(init_InitState latent m \<and> valid_state m B state \<and> valid_state m B' state' \<and>
    b < B \<and> b < B' \<and>
    rows (n_digits m) B (data state) ! b = rows (n_digits m) B' (data state') ! b \<longrightarrow>
      (\<exists>y y'. fst (forward_InitState m state) = Inr y \<and>
         fst (forward_InitState m state') = Inr y' \<and>
         rows (vocab_size m) B (data y) ! b = rows (vocab_size m) B' (data y') ! b \<and>
         rows (vocab_size m) B (data y) ! b =
           InitState_row m (encode_row (n_states_per_digit m)
                              (rows (n_digits m) B (data state) ! b)))) \<and>
   (init_Action latent' ma \<and> shape x = [B, vocab_size ma] \<and> tensor_ok x \<and>
    shape x' = [B', vocab_size ma] \<and> tensor_ok x' \<and> b < B \<and> b < B' \<and>
    rows (vocab_size ma) B (data x) ! b = rows (vocab_size ma) B' (data x') ! b \<longrightarrow>
      (\<exists>y y'. fst (forward_Action ma junk x) = Inr y \<and>
         fst (forward_Action ma junk' x') = Inr y' \<and>
         rows (n_digits ma * n_states_per_digit ma) B (data y) ! b =
           rows (n_digits ma * n_states_per_digit ma) B' (data y') ! b \<and>
         rows (n_digits ma * n_states_per_digit ma) B (data y) ! b =
           Action_row ma (rows (vocab_size ma) B (data x) ! b)))"
proof (intro conjI impI)
  assume a: "init_InitState latent m \<and> valid_state m B state \<and> valid_state m B' state' \<and>
    b < B \<and> b < B' \<and>
    rows (n_digits m) B (data state) ! b = rows (n_digits m) B' (data state') ! b"
  from a forward_InitState_row[of latent m B state b] obtain y where
    y: "fst (forward_InitState m state) = Inr y"
       "rows (vocab_size m) B (data y) ! b =
          InitState_row m (encode_row (n_states_per_digit m)
                             (rows (n_digits m) B (data state) ! b))"
    by blast
  from a forward_InitState_row[of latent m B' state' b] obtain y' where
    y': "fst (forward_InitState m state') = Inr y'"
        "rows (vocab_size m) B' (data y') ! b =
           InitState_row m (encode_row (n_states_per_digit m)
                              (rows (n_digits m) B' (data state') ! b))"
    by blast
  from a y y' show "\<exists>y y'. fst (forward_InitState m state) = Inr y \<and>
         fst (forward_InitState m state') = Inr y' \<and>
         rows (vocab_size m) B (data y) ! b = rows (vocab_size m) B' (data y') ! b \<and>
         rows (vocab_size m) B (data y) ! b =
           InitState_row m (encode_row (n_states_per_digit m)
                              (rows (n_digits m) B (data state) ! b))"
    by (intro exI[of _ y] exI[of _ y']) simp
next
  assume a: "init_Action latent' ma \<and> shape x = [B, vocab_size ma] \<and> tensor_ok x \<and>
    shape x' = [B', vocab_size ma] \<and> tensor_ok x' \<and> b < B \<and> b < B' \<and>
    rows (vocab_size ma) B (data x) ! b = rows (vocab_size ma) B' (data x') ! b"
  from a forward_Action_row[of latent' ma x B b junk] obtain y where
    y: "fst (forward_Action ma junk x) = Inr y"
       "rows (n_digits ma * n_states_per_digit ma) B (data y) ! b =
          Action_row ma (rows (vocab_size ma) B (data x) ! b)"
    by blast
  from a forward_Action_row[of latent' ma x' B' b junk'] obtain y' where
    y': "fst (forward_Action ma junk' x') = Inr y'"
        "rows (n_digits ma * n_states_per_digit ma) B' (data y') ! b =
           Action_row ma (rows (vocab_size ma) B' (data x') ! b)"
    by blast
  from a y y' show "\<exists>y y'. fst (forward_Action ma junk x) = Inr y \<and>
         fst (forward_Action ma junk' x') = Inr y' \<and>
         rows (n_digits ma * n_states_per_digit ma) B (data y) ! b =
           rows (n_digits ma * n_states_per_digit ma) B' (data y') ! b \<and>
         rows (n_digits ma * n_states_per_digit ma) B (data y) ! b =
           Action_row ma (rows (vocab_size ma) B (data x) ! b)"
    by (intro exI[of _ y] exI[of _ y']) simp
qed

lemma rows_examples:
  "valid_state enc_ex 2 states_ex"
  "shape symbols3_ex = [3, 2]" "tensor_ok symbols3_ex"
  "rows 2 2 (data states_ex) ! 0 = rows 2 1 (data state_ex) ! 0"
  "rows 2 2 (data symbols_ex) ! 0 = rows 2 3 (data symbols3_ex) ! 0"
  by (simp_all add: valid_state_def tensor_ok_def numel_def rows_def enc_ex_def
      states_ex_def state_ex_def symbols_ex_def symbols3_ex_def upt_conv_Cons)

theorem rows_independent_witness:
  "init_InitState 1 enc_ex \<and> valid_state enc_ex 2 states_ex \<and> valid_state enc_ex 1 state_ex \<and>
   (0::nat) < 2 \<and> (0::nat) < 1 \<and>
   rows (n_digits enc_ex) 2 (data states_ex) ! 0 = rows (n_digits enc_ex) 1 (data state_ex) ! 0 \<and>
   init_Action 2 act_ex \<and> shape symbols_ex = [2, vocab_size act_ex] \<and> tensor_ok symbols_ex \<and>
   shape symbols3_ex = [3, vocab_size act_ex] \<and> tensor_ok symbols3_ex \<and> (0::nat) < 3 \<and>
   rows (vocab_size act_ex) 2 (data symbols_ex) ! 0 =
     rows (vocab_size act_ex) 3 (data symbols3_ex) ! 0 \<and>
   (\<exists>y y'. fst (forward_InitState enc_ex states_ex) = Inr y \<and>
      fst (forward_InitState enc_ex state_ex) = Inr y' \<and>
      rows (vocab_size enc_ex) 2 (data y) ! 0 = rows (vocab_size enc_ex) 1 (data y') ! 0) \<and>
   (\<exists>y y'. fst (forward_Action act_ex (\<lambda>_. 0) symbols_ex) = Inr y \<and>
      fst (forward_Action act_ex (\<lambda>_. 1) symbols3_ex) = Inr y' \<and>
      rows (n_digits act_ex * n_states_per_digit act_ex) 2 (data y) ! 0 =
        rows (n_digits act_ex * n_states_per_digit act_ex) 3 (data y') ! 0)"
proof -
  have c: "n_digits enc_ex = 2" "vocab_size act_ex = 2"
    by (simp_all add: enc_ex_def act_ex_def)
  have h1: "init_InitState 1 enc_ex \<and> valid_state enc_ex 2 states_ex \<and>
      valid_state enc_ex 1 state_ex \<and> (0::nat) < 2 \<and> (0::nat) < 1 \<and>
      rows (n_digits enc_ex) 2 (data states_ex) ! 0 = rows (n_digits enc_ex) 1 (data state_ex) ! 0"
    using enc_ex_init state_ex_valid rows_examples c by simp
  have h2: "init_Action 2 act_ex \<and> shape symbols_ex = [2, vocab_size act_ex] \<and>
      tensor_ok symbols_ex \<and> shape symbols3_ex = [3, vocab_size act_ex] \<and>
      tensor_ok symbols3_ex \<and> (0::nat) < 2 \<and> (0::nat) < 3 \<and>
      rows (vocab_size act_ex) 2 (data symbols_ex) ! 0 =
        rows (vocab_size act_ex) 3 (data symbols3_ex) ! 0"
    using act_ex_init symbols_ex_ok rows_examples c by simp
  note t1 = rows_independent[where latent = 1 and m = enc_ex and B = 2 and B' = 1
      and state = states_ex and state' = state_ex and b = 0, THEN conjunct1, rule_format, OF h1]
  note t2 = rows_independent[where latent' = 2 and ma = act_ex and B = 2 and B' = 3
      and x = symbols_ex and x' = symbols3_ex and b = 0 and junk = "\<lambda>_. 0"
      and junk' = "\<lambda>_. 1", THEN conjunct2, rule_format, OF h2]
  from t1 have "\<exists>y y'. fst (forward_InitState enc_ex states_ex) = Inr y \<and>
      fst (forward_InitState enc_ex state_ex) = Inr y' \<and>
      rows (vocab_size enc_ex) 2 (data y) ! 0 = rows (vocab_size enc_ex) 1 (data y') ! 0"
    by blast
  moreover from t2 have "\<exists>y y'. fst (forward_Action act_ex (\<lambda>_. 0) symbols_ex) = Inr y \<and>
      fst (forward_Action act_ex (\<lambda>_. 1) symbols3_ex) = Inr y' \<and>
      rows (n_digits act_ex * n_states_per_digit act_ex) 2 (data y) ! 0 =
        rows (n_digits act_ex * n_states_per_digit act_ex) 3 (data y') ! 0"
    by blast
  ultimately show ?thesis using h1 h2 by blast
qed

end
